theory Spec2Isabelle
  imports Complex_Main "HOL-Library.Word" "HOL-Library.Log_Nat"
begin

unbundle bit_operations_syntax

section \<open>Printing a QwtPlot: a model of qwt\_plot\_print.cpp\<close>

text \<open>
  The file qwt\_plot\_print.cpp holds the two \<open>QwtPlot::print\<close> overloads and the
  region printers \<open>printTitle\<close>, \<open>printLegend\<close>, \<open>printLegendItem\<close>,
  \<open>printScale\<close> and \<open>printCanvas\<close>. They are modelled as functions on a record of the
  plot's properties that return the updated plot together with the list of calls made on
  the collaborators (painter, print filter, layout engine, drawing delegates), in the
  order the code makes them.

  Conventions of the model:
  \<^item> a C++ \<open>double\<close> that holds a coordinate is a \<open>real\<close>: rounding, infinities and
    NaN are not represented. Where the code would leave the reals (a division by a zero
    DPI) the model answers with an error value instead of a number. The one place where
    the code turns a computed \<open>double\<close> into an \<open>int\<close> height, the paint-device
    overload, is modelled with the rounding of binary64 instead;
  \<^item> a C++ \<open>int\<close> that holds a pixel distance is an \<open>int\<close>; the option masks are
    \<open>32 word\<close>;
  \<^item> dereferencing a null pointer, reading a list out of range and reading an array
    slot that was never written are error values of the model.
\<close>

subsection \<open>Geometry of the toolkit\<close>

text \<open>\<open>QRectF\<close>: a corner, a width and a height. Its right and bottom edges are
  \<open>x + w\<close> and \<open>y + h\<close>; it is valid when width and height are both positive.\<close>

record qrectf =
  rx :: real
  ry :: real
  rw :: real
  rh :: real

definition left_f :: "qrectf \<Rightarrow> real" where
  "left_f r = rx r"

definition top_f :: "qrectf \<Rightarrow> real" where
  "top_f r = ry r"

definition right_f :: "qrectf \<Rightarrow> real" where
  "right_f r = rx r + rw r"

definition bottom_f :: "qrectf \<Rightarrow> real" where
  "bottom_f r = ry r + rh r"

definition isValid_f :: "qrectf \<Rightarrow> bool" where
  "isValid_f r = (0 < rw r \<and> 0 < rh r)"

definition null_rectf :: qrectf where
  "null_rectf = \<lparr>rx = 0, ry = 0, rw = 0, rh = 0\<rparr>"

text \<open>\<open>QRectF::setX\<close> moves the left edge and keeps the right one.\<close>

definition setX_f :: "real \<Rightarrow> qrectf \<Rightarrow> qrectf" where
  "setX_f x r = r\<lparr>rx := x, rw := rw r - (x - rx r)\<rparr>"

text \<open>\<open>QRect\<close>: integer coordinates; its right edge is \<open>x + w - 1\<close>.\<close>

record qrect =
  ix :: int
  iy :: int
  iw :: int
  ih :: int

definition right_i :: "qrect \<Rightarrow> int" where
  "right_i r = ix r + iw r - 1"

definition setHeight_i :: "int \<Rightarrow> qrect \<Rightarrow> qrect" where
  "setHeight_i v r = r\<lparr>ih := v\<rparr>"

definition toRectF :: "qrect \<Rightarrow> qrectf" where
  "toRectF r = \<lparr>rx = real_of_int (ix r), ry = real_of_int (iy r),
     rw = real_of_int (iw r), rh = real_of_int (ih r)\<rparr>"

text \<open>The conversion of a \<open>double\<close> to an \<open>int\<close> truncates towards zero.\<close>

definition to_int :: "real \<Rightarrow> int" where
  "to_int d = (if 0 \<le> d then \<lfloor>d\<rfloor> else \<lceil>d\<rceil>)"

text \<open>\<open>qRound\<close> of Qt 4 rounds half up; \<open>QRectF::toRect\<close> rounds each of its four
  numbers with it.\<close>

definition qRound :: "real \<Rightarrow> int" where
  "qRound d = \<lfloor>d + 1 / 2\<rfloor>"

definition toRect :: "qrectf \<Rightarrow> qrect" where
  "toRect r = \<lparr>ix = qRound (rx r), iy = qRound (ry r), iw = qRound (rw r), ih = qRound (rh r)\<rparr>"

text \<open>\<open>QSize::isNull\<close>: both the width and the height are 0.\<close>

definition isNull_size :: "int \<times> int \<Rightarrow> bool" where
  "isNull_size s = (fst s = 0 \<and> snd s = 0)"

text \<open>\<open>QTransform\<close>, restricted to what \<open>print\<close> builds: the identity scaled by two
  factors. \<open>scale\<close> leaves the transform untouched when both factors are 1, so that
  \<open>isScaling\<close> answers false for it; \<open>inverted\<close> answers the identity for a singular
  matrix; \<open>mapRect\<close> normalises a rectangle that a negative factor has flipped.\<close>

record qtransform =
  m11 :: real
  m22 :: real

definition identity_transform :: qtransform where
  "identity_transform = \<lparr>m11 = 1, m22 = 1\<rparr>"

definition scale_transform :: "real \<Rightarrow> real \<Rightarrow> qtransform \<Rightarrow> qtransform" where
  "scale_transform sx sy t =
     (if sx = 1 \<and> sy = 1 then t else \<lparr>m11 = m11 t * sx, m22 = m22 t * sy\<rparr>)"

definition isScaling :: "qtransform \<Rightarrow> bool" where
  "isScaling t = (\<not> (m11 t = 1 \<and> m22 t = 1))"

definition inverted :: "qtransform \<Rightarrow> qtransform" where
  "inverted t =
     (if m11 t = 0 \<or> m22 t = 0 then identity_transform
      else \<lparr>m11 = 1 / m11 t, m22 = 1 / m22 t\<rparr>)"

definition mapRect :: "qtransform \<Rightarrow> qrectf \<Rightarrow> qrectf" where
  "mapRect t r =
     (let x = m11 t * rx r; y = m22 t * ry r;
          w = m11 t * rw r; h = m22 t * rh r;
          x' = (if w < 0 then x + w else x); w' = (if w < 0 then - w else w);
          y' = (if h < 0 then y + h else y); h' = (if h < 0 then - h else h)
      in \<lparr>rx = x', ry = y', rw = w', rh = h'\<rparr>)"

subsection \<open>Binary64 arithmetic on quotients of ints\<close>

text \<open>
  A finite \<open>double\<close> is represented exactly, as a fraction of two ints with a positive
  denominator. \<open>binary64_round\<close> rounds a fraction to the nearest number whose
  significand has 53 bits, ties to the even significand, as the division and the
  multiplication of IEEE 754 binary64 do in the default rounding mode. The range of the
  exponent is not modelled (no overflow, no subnormal numbers); quotients and products
  of 32-bit ints stay far inside it.
\<close>

text \<open>The integer nearest to \<open>n / d\<close> for \<open>0 \<le> n\<close> and \<open>0 < d\<close>, the even one
  of two that are equally near.\<close>

definition round_half_even :: "int \<Rightarrow> int \<Rightarrow> int" where
  "round_half_even n d =
     (let q = n div d; r = n mod d
      in if 2 * r < d then q else if d < 2 * r then q + 1 else if even q then q else q + 1)"

text \<open>The exponent \<open>e\<close> of \<open>n / d\<close> for \<open>0 < n\<close> and \<open>0 < d\<close>:
  \<open>2 ^ e \<le> n / d < 2 ^ (e + 1)\<close>.\<close>

definition binary64_exponent :: "int \<Rightarrow> int \<Rightarrow> int" where
  "binary64_exponent n d =
     (let e0 = bitlen n - bitlen d
      in if n * 2 ^ nat (- e0) < d * 2 ^ nat e0 then e0 - 1 else e0)"

definition binary64_round :: "int \<times> int \<Rightarrow> int \<times> int" where
  "binary64_round x =
     (case x of (n, d) \<Rightarrow>
        if n = 0 then (0, 1)
        else
          (let e = binary64_exponent \<bar>n\<bar> d;
               s = 52 - e;
               m = round_half_even (\<bar>n\<bar> * 2 ^ nat s) (d * 2 ^ nat (- s))
           in (sgn n * m * 2 ^ nat (- s), 2 ^ nat s)))"

text \<open>\<open>double(a) / double(b)\<close> for ints \<open>a\<close> and \<open>b \<noteq> 0\<close>, the product of a double
  with \<open>double(k)\<close>, the comparison \<open>x < 1.0\<close> and the conversion \<open>int(x)\<close>, which
  truncates towards zero.\<close>

definition double_quotient :: "int \<Rightarrow> int \<Rightarrow> int \<times> int" where
  "double_quotient a b = binary64_round (if b < 0 then (- a, - b) else (a, b))"

definition double_times_int :: "int \<times> int \<Rightarrow> int \<Rightarrow> int \<times> int" where
  "double_times_int x k = binary64_round (fst x * k, snd x)"

definition double_less_one :: "int \<times> int \<Rightarrow> bool" where
  "double_less_one x = (fst x < snd x)"

definition double_to_int :: "int \<times> int \<Rightarrow> int" where
  "double_to_int x = (if 0 \<le> fst x then fst x div snd x else - ((- fst x) div snd x))"

subsection \<open>The paint-device overload of print\<close>

text \<open>
  \<open>print(QPaintDevice &, filter)\<close>, lines 38 to 51, as far as the rectangle it hands to
  the painter overload. The aspect ratio is a quotient of doubles: with a height of 0
  it is infinite or NaN, and only a negative infinity (a negative width) compares below
  1. The conversion to \<open>int\<close> of an infinite product, or of one outside the range of a
  32-bit \<open>int\<close>, is undefined, which the model answers with \<open>None\<close>.
\<close>

definition print_device_rect :: "int \<Rightarrow> int \<Rightarrow> qrect option" where
  "print_device_rect w h =
     (let rect = \<lparr>ix = 0, iy = 0, iw = w, ih = h\<rparr> in
      if ih rect = 0 then (if iw rect < 0 then None else Some rect)
      else
        (let aspect = double_quotient (iw rect) (ih rect) in
         if double_less_one aspect then
           (let v = double_to_int (double_times_int aspect (iw rect))
            in if - (2 ^ 31) \<le> v \<and> v < 2 ^ 31 then Some (setHeight_i v rect) else None)
         else Some rect))"

subsection \<open>Constants of the headers\<close>

text \<open>
  Modelled from the spec: the axis ids of \<open>QwtPlot::Axis\<close> (qwt\_plot.h), the print
  options of \<open>QwtPlotPrintFilter::Options\<close> (qwt\_plot\_printfilter.h) and the layout
  options of \<open>QwtPlotLayout::Options\<close> (qwt\_plot\_layout.h), whose headers are not
  part of the file under study. The specification has four axes (left, right, bottom,
  top) and option flags that are independent bits of a mask; the numbers are those of
  the Qwt headers.
\<close>

definition yLeft :: int where "yLeft = 0"
definition yRight :: int where "yRight = 1"
definition xBottom :: int where "xBottom = 2"
definition xTop :: int where "xTop = 3"
definition axisCnt :: int where "axisCnt = 4"

definition PrintMargin :: "32 word" where "PrintMargin = 1"
definition PrintTitle :: "32 word" where "PrintTitle = 2"
definition PrintLegend :: "32 word" where "PrintLegend = 4"
definition PrintGrid :: "32 word" where "PrintGrid = 8"
definition PrintBackground :: "32 word" where "PrintBackground = 16"
definition PrintFrameWithScales :: "32 word" where "PrintFrameWithScales = 32"

definition IgnoreScrollbars :: "32 word" where "IgnoreScrollbars = 1"
definition IgnoreFrames :: "32 word" where "IgnoreFrames = 2"
definition IgnoreMargin :: "32 word" where "IgnoreMargin = 4"
definition IgnoreLegend :: "32 word" where "IgnoreLegend = 8"

text \<open>\<open>options & flag\<close> used as a condition.\<close>

definition has_flag :: "32 word \<Rightarrow> 32 word \<Rightarrow> bool" where
  "has_flag options flag = (options AND flag \<noteq> 0)"

subsection \<open>The plot and its collaborators\<close>

datatype orientation = Horizontal | Vertical

datatype alignment = BottomScale | TopScale | LeftScale | RightScale

datatype transformation = Linear | Log10 | Other

datatype engine_type = Raster | X11 | OtherEngine

datatype error = NullPointer | IndexOutOfRange | UninitialisedRead | NonFiniteScale

text \<open>
  Modelled from the spec: a \<open>QwtScaleWidget\<close> with the \<open>QwtScaleDraw\<close> it owns
  (\<open>sd_\<close> fields), both defined outside the file under study. Only the properties
  that the print functions read or write are kept. The specification gives the scale
  widget a margin to get and set and the scale draw a position and a length to get and
  set: \<open>setMargin\<close>, \<open>QwtScaleDraw::move\<close> and \<open>QwtScaleDraw::setLength\<close> store the
  value they are given, \<open>margin\<close>, \<open>pos\<close> and \<open>length\<close> read it back.
\<close>

record scale_widget =
  margin :: int
  borderDistHint :: "int \<times> int"
  startBorderDist :: int
  endBorderDist :: int
  isColorBarEnabled :: bool
  colorBarWidth :: int
  spacing :: int
  penWidth :: int
  sd_orientation :: orientation
  sd_pos :: "real \<times> real"
  sd_length :: real

text \<open>
  The legend: whether it is empty, the layout of its contents widget (none, some other
  layout, or a \<open>QwtDynGridLayout\<close> with its items, each with the widget it holds or
  none) and the two functions of the grid layout that \<open>printLegend\<close> calls.
\<close>

datatype legend_widget =
    LegendItem (li_margin: int) (li_identifierWidth: int) (li_spacing: int) (li_hasManager: bool)
  | OtherWidget

datatype legend_layout =
    NoLayout
  | OtherLayout
  | DynGridLayout "legend_widget option list"

record legend =
  leg_isEmpty :: bool
  leg_layout :: legend_layout
  columnsForWidth :: "int \<Rightarrow> nat"
  layoutItems :: "qrect \<Rightarrow> nat \<Rightarrow> qrect list"

text \<open>The rectangles the layout engine has computed (\<open>QwtPlotLayout\<close>).\<close>

record layout_rects =
  titleRect :: qrectf
  legendRect :: qrectf
  scaleRect :: "int \<Rightarrow> qrectf"
  canvasRect :: qrectf

record plot =
  plot_size :: "int \<times> int"
  logicalDpiX :: int
  logicalDpiY :: int
  titleIsEmpty :: bool
  plot_legend :: "legend option"
  axisWidget :: "int \<Rightarrow> scale_widget option"
  axisEnabled :: "int \<Rightarrow> bool"
  scaleDivBounds :: "int \<Rightarrow> real \<times> real"
  engineTransformation :: "int \<Rightarrow> transformation"
  layout :: layout_rects
  canvasMargin :: "int \<Rightarrow> int"

text \<open>
  The layout engine itself is a parameter of \<open>print\<close>: a function from the plot, the
  rectangle and the option mask given to \<open>activate\<close> to the rectangles it computes.
\<close>

type_synonym layout_engine = "plot \<Rightarrow> qrectf \<Rightarrow> 32 word \<Rightarrow> layout_rects"

text \<open>
  Modelled from the spec: \<open>QwtPlotLayout::invalidate\<close>, defined outside the file under
  study, invalidates the cached computation of the layout engine; the rectangles it had
  computed become null rectangles.
\<close>

definition invalidate :: "layout_rects \<Rightarrow> layout_rects" where
  "invalidate l = \<lparr>titleRect = null_rectf, legendRect = null_rectf,
     scaleRect = (\<lambda>_. null_rectf), canvasRect = null_rectf\<rparr>"

text \<open>A \<open>QPainter\<close> as \<open>print\<close> sees it before drawing: whether it is active, the
  logical DPI of its device and the type of its paint engine, if it has one.\<close>

record painter =
  isActive :: bool
  deviceDpiX :: int
  deviceDpiY :: int
  paintEngine :: "engine_type option"

text \<open>Modelled from the spec: \<open>QwtScaleMap\<close>, defined outside the file under study,
  is a transformation kind with a data interval and a pixel interval. Default constructed
  it is linear, from the scale interval \<open>[0, 1]\<close> to the paint interval \<open>[0, 1]\<close>; the
  setters store their arguments.\<close>

record scale_map =
  map_transformation :: transformation
  s1 :: real
  s2 :: real
  p1 :: real
  p2 :: real

definition default_map :: scale_map where
  "default_map = \<lparr>map_transformation = Linear, s1 = 0, s2 = 1, p1 = 0, p2 = 1\<rparr>"

definition setPaintInterval :: "real \<Rightarrow> real \<Rightarrow> scale_map \<Rightarrow> scale_map" where
  "setPaintInterval a b m = m\<lparr>p1 := a, p2 := b\<rparr>"

subsection \<open>The calls made on the collaborators\<close>

datatype font_src = TitleFont | ScaleFont int | LegendItemFont nat

datatype pen_src = TitleTextColor | ScalePen int | BlackPen

datatype text_src = TitleText | LegendItemText nat

text \<open>
  One constructor for each call that leaves the file: on the painter, on the print
  filter, on the layout engine and on the drawing delegates. The four \<open>Call\<close>
  constructors record that \<open>print\<close> calls one of the region printers of this file,
  with the arguments it passes.
\<close>

datatype event =
    Save
  | Restore
  | SetTransform qtransform
  | ResetTransform
  | SetFont font_src
  | SetPen pen_src
  | SetNoBrush
  | SetClipping bool
  | SetClipRect qrect
  | FilterApply bool
  | FilterReset
  | LayoutActivate qrectf "32 word"
  | LayoutInvalidate
  | DrawText text_src qrectf
  | DrawLegendIdentifier nat qrect
  | DrawColorBar int qrectf
  | DrawScaleTitle int alignment qrectf
  | DrawScale int "real \<times> real" real
  | FillRect qrectf
  | DrawRect qrectf
  | DrawItems qrectf "scale_map list" "32 word"
  | CallPrintTitle qrectf
  | CallPrintLegend qrectf
  | CallPrintScale int int int int qrectf
  | CallPrintCanvas qrectf "scale_map list"

subsection \<open>The region printers\<close>

text \<open>\<open>printTitle\<close>, lines 243 to 252.\<close>

definition printTitle :: "qrectf \<Rightarrow> event list" where
  "printTitle rect = [SetFont TitleFont, SetPen TitleTextColor, DrawText TitleText rect]"

text \<open>\<open>printLegendItem\<close>, lines 304 to 331. The item is named by its position \<open>i\<close> in
  the layout. A widget that is no \<open>QwtLegendItem\<close> is skipped.\<close>

definition printLegendItem :: "nat \<Rightarrow> legend_widget \<Rightarrow> qrectf \<Rightarrow> event list" where
  "printLegendItem i w rect =
     (case w of
        OtherWidget \<Rightarrow> []
      | LegendItem lmargin identifierWidth lspacing hasManager \<Rightarrow>
          (let identifierRect = \<lparr>ix = to_int (rx rect + real_of_int lmargin), iy = to_int (ry rect),
                 iw = identifierWidth, ih = to_int (rh rect)\<rparr>;
               titleRect = setX_f (real_of_int (right_i identifierRect + 2 * lspacing)) rect
           in (if hasManager then [Save, DrawLegendIdentifier i identifierRect, Restore] else [])
              @ [SetFont (LegendItemFont i), DrawText (LegendItemText i) titleRect]))"

text \<open>The loop of \<open>printLegend\<close>, lines 278 to 293, over the items from position \<open>i\<close>
  on; \<open>index\<close> counts the items that hold a widget.\<close>

fun printLegendItems ::
  "legend_widget option list \<Rightarrow> qrect list \<Rightarrow> nat \<Rightarrow> nat \<Rightarrow> error + event list" where
  "printLegendItems [] itemRects i index = Inr []"
| "printLegendItems (item # items) itemRects i index =
     (case item of
        None \<Rightarrow> printLegendItems items itemRects (Suc i) index
      | Some w \<Rightarrow>
          if index < length itemRects then
            (case printLegendItems items itemRects (Suc i) (Suc index) of
               Inl e \<Rightarrow> Inl e
             | Inr evs \<Rightarrow>
                 Inr ([Save, SetClipping True, SetClipRect (itemRects ! index)]
                      @ printLegendItem i w (toRectF (itemRects ! index))
                      @ [Restore] @ evs))
          else Inl IndexOutOfRange)"

text \<open>\<open>printLegend\<close>, lines 261 to 294.\<close>

definition printLegend :: "plot \<Rightarrow> qrectf \<Rightarrow> error + event list" where
  "printLegend p rect =
     (case plot_legend p of
        None \<Rightarrow> Inr []
      | Some lg \<Rightarrow>
          if leg_isEmpty lg then Inr []
          else
            (case leg_layout lg of
               NoLayout \<Rightarrow> Inr []
             | OtherLayout \<Rightarrow> Inr []
             | DynGridLayout items \<Rightarrow>
                 (let numCols = columnsForWidth lg (to_int (rw rect));
                      itemRects = layoutItems lg (toRect rect) numCols
                  in printLegendItems items itemRects 0 0)))"

text \<open>
  The colour bar block of \<open>printScale\<close>, lines 353 to 367: the calls it makes and the
  base distance it leaves. The argument recorded with \<open>DrawColorBar\<close> is the rectangle
  given to \<open>colorBarRect\<close>.
\<close>

definition printScale_colorBar ::
  "int \<Rightarrow> scale_widget \<Rightarrow> qrectf \<Rightarrow> int \<Rightarrow> event list \<times> int" where
  "printScale_colorBar axisId scaleWidget rect baseDist =
     (if isColorBarEnabled scaleWidget \<and> 0 < colorBarWidth scaleWidget then
        (let r = rect\<lparr>rw := rw rect - 1\<rparr>;
             r' = r\<lparr>rh := rh r - 1\<rparr>;
             off = colorBarWidth scaleWidget + spacing scaleWidget
         in ([DrawColorBar axisId r'],
             (if sd_orientation scaleWidget = Horizontal then baseDist + off
              else baseDist + off)))
      else ([], baseDist))"

text \<open>The \<open>switch\<close> of \<open>printScale\<close>, lines 372 to 408: the position, the length and
  the alignment of the scale, or nothing for an axis id that is none of the four.\<close>

definition printScale_geometry ::
  "int \<Rightarrow> int \<Rightarrow> int \<Rightarrow> int \<Rightarrow> qrectf \<Rightarrow> (int \<times> int \<times> int \<times> alignment) option" where
  "printScale_geometry axisId startDist endDist baseDist rect =
     (if axisId = yLeft then
        Some (to_int (right_f rect - 1 - real_of_int baseDist),
              to_int (ry rect + real_of_int startDist),
              to_int (rh rect - real_of_int startDist - real_of_int endDist), LeftScale)
      else if axisId = yRight then
        Some (to_int (left_f rect + real_of_int baseDist),
              to_int (ry rect + real_of_int startDist),
              to_int (rh rect - real_of_int startDist - real_of_int endDist), RightScale)
      else if axisId = xTop then
        Some (to_int (left_f rect + real_of_int startDist),
              to_int (bottom_f rect - real_of_int baseDist),
              to_int (rw rect - real_of_int startDist - real_of_int endDist), TopScale)
      else if axisId = xBottom then
        Some (to_int (left_f rect + real_of_int startDist),
              to_int (top_f rect + real_of_int baseDist),
              to_int (rw rect - real_of_int startDist - real_of_int endDist), BottomScale)
      else None)"

text \<open>
  \<open>printScale\<close>, lines 345 to 435. The scale draw is moved and resized, drawn (the
  \<open>DrawScale\<close> call records the position and length it is drawn with), and given its
  previous position and length again.
\<close>

definition printScale ::
  "int \<Rightarrow> int \<Rightarrow> int \<Rightarrow> int \<Rightarrow> qrectf \<Rightarrow> plot \<Rightarrow> error + plot \<times> event list" where
  "printScale axisId startDist endDist baseDist rect p =
     (if \<not> axisEnabled p axisId then Inr (p, [])
      else
        (case axisWidget p axisId of
           None \<Rightarrow> Inl NullPointer
         | Some scaleWidget \<Rightarrow>
             (let (ev1, baseDist') = printScale_colorBar axisId scaleWidget rect baseDist in
              case printScale_geometry axisId startDist endDist baseDist' rect of
                None \<Rightarrow> Inr (p, ev1)
              | Some (x, y, w, align) \<Rightarrow>
                  (let ev2 = [DrawScaleTitle axisId align rect, Save,
                              SetFont (ScaleFont axisId), SetPen (ScalePen (penWidth scaleWidget))];
                       sdPos = sd_pos scaleWidget;
                       sdLength = sd_length scaleWidget;
                       sd1 = scaleWidget\<lparr>sd_pos := (real_of_int x, real_of_int y),
                                          sd_length := real_of_int w\<rparr>;
                       pa = p\<lparr>axisWidget := (axisWidget p)(axisId \<mapsto> sd1)\<rparr>;
                       ev3 = [DrawScale axisId (sd_pos sd1) (sd_length sd1)];
                       sd2 = sd1\<lparr>sd_pos := sdPos, sd_length := sdLength\<rparr>;
                       pb = pa\<lparr>axisWidget := (axisWidget pa)(axisId \<mapsto> sd2)\<rparr>
                   in Inr (pb, ev1 @ ev2 @ ev3 @ [Restore])))))"

text \<open>\<open>printCanvas\<close>, lines 447 to 489.\<close>

definition printCanvas ::
  "painter \<Rightarrow> qrectf \<Rightarrow> scale_map list \<Rightarrow> 32 word \<Rightarrow> event list" where
  "printCanvas pt cRect maps options =
     (if has_flag options PrintBackground then
        (let r = (if \<not> has_flag options PrintFrameWithScales then
                    (case paintEngine pt of
                       None \<Rightarrow> cRect
                     | Some Raster \<Rightarrow> cRect
                     | Some X11 \<Rightarrow> cRect
                     | Some OtherEngine \<Rightarrow>
                         (let r1 = cRect\<lparr>rw := rw cRect - 1\<rparr>
                          in r1\<lparr>rh := rh r1 - 1\<rparr>))
                  else cRect)
         in [FillRect r])
      else [])
     @ (if has_flag options PrintFrameWithScales then
          [Save, SetPen BlackPen, SetNoBrush, DrawRect cRect, Restore]
        else [])
     @ [SetClipping True, SetClipRect (toRect cRect), DrawItems cRect maps options]"

subsection \<open>The iterations of print over the axes\<close>

text \<open>Each \<open>for\<close> statement of \<open>print\<close> runs its variable \<open>axisId\<close> from 0 up to
  \<open>axisCnt\<close>; each is a recursion over the list of these values.\<close>

definition axisIds :: "int list" where
  "axisIds = [0, 1, 2, 3]"

text \<open>Lines 89 to 97: the margin of every scale widget is stored in \<open>baseLineDists\<close>
  and set to 0. The array starts uninitialised: a partial map with no entry.\<close>

fun zeroMargins :: "int list \<Rightarrow> plot \<Rightarrow> (int \<rightharpoonup> int) \<Rightarrow> plot \<times> (int \<rightharpoonup> int)" where
  "zeroMargins [] p baseLineDists = (p, baseLineDists)"
| "zeroMargins (axisId # ids) p baseLineDists =
     (case axisWidget p axisId of
        None \<Rightarrow> zeroMargins ids p baseLineDists
      | Some scaleWidget \<Rightarrow>
          zeroMargins ids
            (p\<lparr>axisWidget := (axisWidget p)(axisId \<mapsto> scaleWidget\<lparr>margin := 0\<rparr>)\<rparr>)
            (baseLineDists(axisId \<mapsto> margin scaleWidget)))"

text \<open>Lines 223 to 228: every scale widget gets the margin stored for its axis.\<close>

fun restoreMargins :: "int list \<Rightarrow> (int \<rightharpoonup> int) \<Rightarrow> plot \<Rightarrow> error + plot" where
  "restoreMargins [] baseLineDists p = Inr p"
| "restoreMargins (axisId # ids) baseLineDists p =
     (case axisWidget p axisId of
        None \<Rightarrow> restoreMargins ids baseLineDists p
      | Some scaleWidget \<Rightarrow>
          (case baseLineDists axisId of
             None \<Rightarrow> Inl UninitialisedRead
           | Some v \<Rightarrow>
               restoreMargins ids baseLineDists
                 (p\<lparr>axisWidget := (axisWidget p)(axisId \<mapsto> scaleWidget\<lparr>margin := v\<rparr>)\<rparr>)))"

text \<open>Lines 126 to 139: \<open>printScale\<close> is called for every axis that has a scale widget,
  with the widget's margin, its border distance hint and the scale rectangle of the
  layout.\<close>

fun printScales :: "int list \<Rightarrow> plot \<Rightarrow> error + plot \<times> event list" where
  "printScales [] p = Inr (p, [])"
| "printScales (axisId # ids) p =
     (case axisWidget p axisId of
        None \<Rightarrow> printScales ids p
      | Some scaleWidget \<Rightarrow>
          (let baseDist = margin scaleWidget;
               (startDist, endDist) = borderDistHint scaleWidget;
               rect = scaleRect (layout p) axisId
           in case printScale axisId startDist endDist baseDist rect p of
                Inl e \<Rightarrow> Inl e
              | Inr (p', ev) \<Rightarrow>
                  (case printScales ids p' of
                     Inl e \<Rightarrow> Inl e
                   | Inr (p'', evs) \<Rightarrow>
                       Inr (p'', CallPrintScale axisId startDist endDist baseDist rect # ev @ evs))))"

text \<open>Lines 152 to 183: the two ends \<open>from\<close> and \<open>to\<close> of the paint interval of one
  axis, in the coordinates of the layout. \<open>cRect\<close> is the canvas rectangle.\<close>

definition paintInterval :: "plot \<Rightarrow> qrectf \<Rightarrow> int \<Rightarrow> error + real \<times> real" where
  "paintInterval p cRect axisId =
     (if axisEnabled p axisId then
        (case axisWidget p axisId of
           None \<Rightarrow> Inl NullPointer
         | Some scaleWidget \<Rightarrow>
             (let sDist = startBorderDist scaleWidget;
                  eDist = endBorderDist scaleWidget;
                  sRect = scaleRect (layout p) axisId
              in if axisId = xTop \<or> axisId = xBottom then
                   Inr (left_f sRect + real_of_int sDist, right_f sRect - real_of_int eDist)
                 else
                   Inr (bottom_f sRect - real_of_int eDist, top_f sRect + real_of_int sDist)))
      else
        (let cmargin = canvasMargin p axisId
         in if axisId = yLeft \<or> axisId = yRight then
              Inr (bottom_f cRect - 1 - real_of_int cmargin, top_f cRect + real_of_int cmargin)
            else
              Inr (left_f cRect + real_of_int cmargin, right_f cRect - 1 - real_of_int cmargin)))"

text \<open>Lines 144 to 185: one coordinate map for each axis.\<close>

fun buildMaps :: "int list \<Rightarrow> plot \<Rightarrow> qrectf \<Rightarrow> scale_map list \<Rightarrow> error + scale_map list" where
  "buildMaps [] p cRect maps = Inr maps"
| "buildMaps (axisId # ids) p cRect maps =
     (let ma = (maps ! nat axisId)\<lparr>map_transformation := engineTransformation p axisId\<rparr>;
          mb = ma\<lparr>s1 := fst (scaleDivBounds p axisId), s2 := snd (scaleDivBounds p axisId)\<rparr>
      in case paintInterval p cRect axisId of
           Inl e \<Rightarrow> Inl e
         | Inr (from, to) \<Rightarrow>
             buildMaps ids p cRect (maps[nat axisId := setPaintInterval from to mb]))"

text \<open>Lines 194 to 211: the ends of every paint interval are multiplied by the
  factor of the transform that belongs to the direction of the axis.\<close>

fun rescaleMaps :: "int list \<Rightarrow> qtransform \<Rightarrow> scale_map list \<Rightarrow> scale_map list" where
  "rescaleMaps [] t maps = maps"
| "rescaleMaps (axisId # ids) t maps =
     (let q1 = p1 (maps ! nat axisId);
          q2 = p2 (maps ! nat axisId);
          (q1', q2') = (if axisId = xTop \<or> axisId = xBottom then (q1 * m11 t, q2 * m11 t)
                        else (q1 * m22 t, q2 * m22 t))
      in rescaleMaps ids t (maps[nat axisId := setPaintInterval q1' q2' (maps ! nat axisId)]))"

subsection \<open>print\<close>

text \<open>The layout options of lines 101 to 106.\<close>

definition layoutOptions_of :: "32 word \<Rightarrow> 32 word" where
  "layoutOptions_of options =
     (let lo = IgnoreScrollbars OR IgnoreFrames;
          lo' = (if \<not> has_flag options PrintMargin then lo OR IgnoreMargin else lo)
      in if \<not> has_flag options PrintLegend then lo' OR IgnoreLegend else lo')"

text \<open>The transform of lines 77 to 80, from the DPI of the painter's device and of the
  plot widget.\<close>

definition print_transform :: "painter \<Rightarrow> plot \<Rightarrow> qtransform" where
  "print_transform pt p =
     scale_transform (real_of_int (deviceDpiX pt) / real_of_int (logicalDpiX p))
       (real_of_int (deviceDpiY pt) / real_of_int (logicalDpiY p)) identity_transform"

text \<open>Lines 86 to 110, as far as the plot is concerned: the margins are set to 0 when
  the frame is printed with the scales, and the layout is activated. The result is the
  plot with the table \<open>baseLineDists\<close>.\<close>

definition print_prepare ::
  "layout_engine \<Rightarrow> painter \<Rightarrow> qrectf \<Rightarrow> 32 word \<Rightarrow> plot \<Rightarrow> plot \<times> (int \<rightharpoonup> int)" where
  "print_prepare L pt plotRect options p =
     (let transform = print_transform pt p;
          (pa, baseLineDists) =
             (if has_flag options PrintFrameWithScales
              then zeroMargins axisIds p Map.empty else (p, Map.empty));
          layoutOptions = layoutOptions_of options;
          layoutRect = mapRect (inverted transform) plotRect
      in (pa\<lparr>layout := L pa layoutRect layoutOptions\<rparr>, baseLineDists))"

text \<open>Lines 114 to 118: the title.\<close>

definition print_title_part :: "32 word \<Rightarrow> plot \<Rightarrow> event list" where
  "print_title_part options p =
     (if has_flag options PrintTitle \<and> \<not> titleIsEmpty p
      then CallPrintTitle (titleRect (layout p)) # printTitle (titleRect (layout p))
      else [])"

text \<open>Lines 120 to 124: the legend.\<close>

definition print_legend_part :: "32 word \<Rightarrow> plot \<Rightarrow> error + event list" where
  "print_legend_part options p =
     (if has_flag options PrintLegend
         \<and> (case plot_legend p of None \<Rightarrow> False | Some lg \<Rightarrow> \<not> leg_isEmpty lg)
      then (case printLegend p (legendRect (layout p)) of
              Inl e \<Rightarrow> Inl e
            | Inr evs \<Rightarrow> Inr (CallPrintLegend (legendRect (layout p)) # evs))
      else Inr [])"

text \<open>
  \<open>print(QPainter *, plotRect, filter)\<close>, lines 63 to 234. \<open>L\<close> is the layout engine,
  \<open>painter\<close> the painter or the null pointer, \<open>options\<close> the option mask of the filter.
  The result is the plot after the call with the calls made, in order.
\<close>

definition print ::
  "layout_engine \<Rightarrow> painter option \<Rightarrow> qrectf \<Rightarrow> 32 word \<Rightarrow> plot \<Rightarrow> error + plot \<times> event list" where
  "print L painter plotRect options p =
     (case painter of
        None \<Rightarrow> Inr (p, [])
      | Some pt \<Rightarrow>
          if \<not> isActive pt \<or> \<not> isValid_f plotRect \<or> isNull_size (plot_size p) then Inr (p, [])
          else if logicalDpiX p = 0 \<or> logicalDpiY p = 0 then Inl NonFiniteScale
          else
            (let transform = print_transform pt p;
                 ev0 = [Save, FilterApply (isScaling transform)];
                 (pb, baseLineDists) = print_prepare L pt plotRect options p;
                 ev1 = [LayoutActivate (mapRect (inverted transform) plotRect)
                          (layoutOptions_of options),
                        SetTransform transform];
                 ev2 = print_title_part options pb
             in case print_legend_part options pb of
                  Inl e \<Rightarrow> Inl e
                | Inr ev3 \<Rightarrow>
                    (case printScales axisIds pb of
                       Inl e \<Rightarrow> Inl e
                     | Inr (pc, ev4) \<Rightarrow>
                         (case buildMaps axisIds pc (canvasRect (layout pc))
                                 (replicate (nat axisCnt) default_map) of
                            Inl e \<Rightarrow> Inl e
                          | Inr maps \<Rightarrow>
                              (let cRect = mapRect transform (canvasRect (layout pc));
                                   maps' = rescaleMaps axisIds transform maps;
                                   ev5 = ResetTransform # CallPrintCanvas cRect maps'
                                           # printCanvas pt cRect maps' options;
                                   pd = pc\<lparr>layout := invalidate (layout pc)\<rparr>
                               in case (if has_flag options PrintFrameWithScales
                                        then restoreMargins axisIds baseLineDists pd
                                        else Inr pd) of
                                    Inl e \<Rightarrow> Inl e
                                  | Inr pe \<Rightarrow>
                                      Inr (pe, ev0 @ ev1 @ ev2 @ ev3 @ ev4 @ ev5
                                               @ [LayoutInvalidate, FilterReset, Restore]))))))"

text \<open>The paint-device overload, lines 38 to 51: a painter on the device, and the
  painter overload with the rectangle of the device.\<close>

definition print_device ::
  "layout_engine \<Rightarrow> painter \<Rightarrow> int \<Rightarrow> int \<Rightarrow> 32 word \<Rightarrow> plot \<Rightarrow> (error + plot \<times> event list) option" where
  "print_device L pt w h options p =
     (case print_device_rect w h of
        None \<Rightarrow> None
      | Some rect \<Rightarrow> Some (print L (Some pt) (toRectF rect) options p))"

subsection \<open>Reading a result\<close>

text \<open>The calls of a result, none if the call did not return; the plot of a result.\<close>

definition trace_of :: "error + plot \<times> event list \<Rightarrow> event list" where
  "trace_of r = (case r of Inl _ \<Rightarrow> [] | Inr (_, tr) \<Rightarrow> tr)"

definition plot_of :: "error + plot \<times> event list \<Rightarrow> plot option" where
  "plot_of r = (case r of Inl _ \<Rightarrow> None | Inr (q, _) \<Rightarrow> Some q)"

text \<open>Classes of calls: those on the painter and the drawing delegates, and the calls
  of the region printers.\<close>

fun is_drawing :: "event \<Rightarrow> bool" where
  "is_drawing (SetTransform _) = False"
| "is_drawing ResetTransform = False"
| "is_drawing (FilterApply _) = False"
| "is_drawing FilterReset = False"
| "is_drawing (LayoutActivate _ _) = False"
| "is_drawing LayoutInvalidate = False"
| "is_drawing (CallPrintTitle _) = False"
| "is_drawing (CallPrintLegend _) = False"
| "is_drawing (CallPrintScale _ _ _ _ _) = False"
| "is_drawing (CallPrintCanvas _ _) = False"
| "is_drawing _ = True"

fun is_scale_draw :: "event \<Rightarrow> bool" where
  "is_scale_draw (DrawScale _ _ _) = True"
| "is_scale_draw _ = False"

fun is_title_call :: "event \<Rightarrow> bool" where
  "is_title_call (CallPrintTitle _) = True"
| "is_title_call _ = False"

fun is_legend_call :: "event \<Rightarrow> bool" where
  "is_legend_call (CallPrintLegend _) = True"
| "is_legend_call _ = False"

fun is_scale_call :: "event \<Rightarrow> bool" where
  "is_scale_call (CallPrintScale _ _ _ _ _) = True"
| "is_scale_call _ = False"

fun is_canvas_call :: "event \<Rightarrow> bool" where
  "is_canvas_call (CallPrintCanvas _ _) = True"
| "is_canvas_call _ = False"

fun is_layout_activate :: "event \<Rightarrow> bool" where
  "is_layout_activate (LayoutActivate _ _) = True"
| "is_layout_activate _ = False"

text \<open>The axis and the base distance of a call of \<open>printScale\<close>.\<close>

fun scale_call_baseDist :: "event \<Rightarrow> (int \<times> int) option" where
  "scale_call_baseDist (CallPrintScale a _ _ b _) = Some (a, b)"
| "scale_call_baseDist _ = None"




text \<open>The rectangle that a call of a region printer is given.\<close>

fun call_rect :: "event \<Rightarrow> qrectf option" where
  "call_rect (CallPrintTitle r) = Some r"
| "call_rect (CallPrintLegend r) = Some r"
| "call_rect (CallPrintScale _ _ _ _ r) = Some r"
| "call_rect (CallPrintCanvas r _) = Some r"
| "call_rect _ = None"


text \<open>The condition of lines 68 and 69 under which \<open>print\<close> goes on.\<close>

definition print_valid :: "painter \<Rightarrow> qrectf \<Rightarrow> plot \<Rightarrow> bool" where
  "print_valid pt plotRect p = (isActive pt \<and> isValid_f plotRect \<and> \<not> isNull_size (plot_size p))"

text \<open>The factor of the transform for an axis: \<open>m11\<close> for the top and the bottom
  axis, \<open>m22\<close> for the others.\<close>

definition axis_factor :: "qtransform \<Rightarrow> int \<Rightarrow> real" where
  "axis_factor t axisId = (if axisId = xTop \<or> axisId = xBottom then m11 t else m22 t)"

subsection \<open>The colour bar offset as the specification words it\<close>


subsection \<open>A plot to run the model on\<close>

text \<open>
  A plot of 400 by 300 pixels at 96 DPI with a title, a legend of one item and four
  scale widgets, of which the left and the bottom axis are enabled; a layout engine that
  cuts the rectangle into a title strip, a legend strip, two scale strips and the canvas;
  a painter on a device of 192 DPI.
\<close>

definition ex_widget :: scale_widget where
  "ex_widget = \<lparr>margin = 4, borderDistHint = (5, 6), startBorderDist = 5, endBorderDist = 6,
     isColorBarEnabled = True, colorBarWidth = 8, spacing = 2, penWidth = 1,
     sd_orientation = Vertical, sd_pos = (0, 0), sd_length = 100\<rparr>"

definition ex_legend :: legend where
  "ex_legend = \<lparr>leg_isEmpty = False,
     leg_layout = DynGridLayout [Some (LegendItem 2 10 3 True)],
     columnsForWidth = (\<lambda>_. 1), layoutItems = (\<lambda>r n. [r])\<rparr>"

definition ex_plot :: plot where
  "ex_plot = \<lparr>plot_size = (400, 300), logicalDpiX = 96, logicalDpiY = 96,
     titleIsEmpty = False, plot_legend = Some ex_legend,
     axisWidget = (\<lambda>a. if 0 \<le> a \<and> a < 4 then Some ex_widget else None),
     axisEnabled = (\<lambda>a. a = 0 \<or> a = 2),
     scaleDivBounds = (\<lambda>_. (0, 100)), engineTransformation = (\<lambda>_. Linear),
     layout = \<lparr>titleRect = null_rectf, legendRect = null_rectf,
                scaleRect = (\<lambda>_. null_rectf), canvasRect = null_rectf\<rparr>,
     canvasMargin = (\<lambda>_. 4)\<rparr>"

definition ex_engine :: layout_engine where
  "ex_engine p r options =
     \<lparr>titleRect = \<lparr>rx = rx r, ry = ry r, rw = rw r, rh = 20\<rparr>,
      legendRect = \<lparr>rx = rx r, ry = ry r + rh r - 20, rw = rw r, rh = 20\<rparr>,
      scaleRect = (\<lambda>a. if a = 0 then \<lparr>rx = rx r, ry = ry r + 20, rw = 30, rh = rh r - 70\<rparr>
                       else if a = 2
                       then \<lparr>rx = rx r + 30, ry = ry r + rh r - 50, rw = rw r - 30, rh = 30\<rparr>
                       else null_rectf),
      canvasRect = \<lparr>rx = rx r + 30, ry = ry r + 20, rw = rw r - 30, rh = rh r - 70\<rparr>\<rparr>"

text \<open>A second layout engine, which reads what it is activated with: the canvas
  starts 26 pixels plus the margin of the left scale widget from the left edge, and the
  20 pixels of the legend strip go to the canvas when the mask has \<open>IgnoreLegend\<close>.\<close>

definition ex_engine_opts :: layout_engine where
  "ex_engine_opts p r options =
     (let m = (case axisWidget p 0 of None \<Rightarrow> 0 | Some sw \<Rightarrow> real_of_int (margin sw));
          lh = (if has_flag options IgnoreLegend then 0 else 20)
      in \<lparr>titleRect = \<lparr>rx = rx r, ry = ry r, rw = rw r, rh = 20\<rparr>,
          legendRect = \<lparr>rx = rx r, ry = ry r + rh r - lh, rw = rw r, rh = lh\<rparr>,
          scaleRect = (\<lambda>a. if a = 0 then \<lparr>rx = rx r, ry = ry r + 20, rw = 26 + m, rh = rh r - 50 - lh\<rparr>
                           else if a = 2
                           then \<lparr>rx = rx r + 26 + m, ry = ry r + rh r - 30 - lh,
                                  rw = rw r - 26 - m, rh = 30\<rparr>
                           else null_rectf),
          canvasRect = \<lparr>rx = rx r + 26 + m, ry = ry r + 20, rw = rw r - 26 - m,
                         rh = rh r - 50 - lh\<rparr>\<rparr>)"

definition ex_painter :: painter where
  "ex_painter = \<lparr>isActive = True, deviceDpiX = 192, deviceDpiY = 192,
     paintEngine = Some Raster\<rparr>"

definition ex_rect :: qrectf where
  "ex_rect = \<lparr>rx = 0, ry = 0, rw = 800, rh = 600\<rparr>"

text \<open>A rectangle so small that the layout engine above leaves the left scale a
  rectangle lower than its two border distances together.\<close>

definition ex_small_rect :: qrectf where
  "ex_small_rect = \<lparr>rx = 0, ry = 0, rw = 160, rh = 150\<rparr>"

section \<open>Properties\<close>

subsection \<open>The region printers: the plot they leave and the calls they make\<close>

lemma axisWidget_upd_triv:
  "axisWidget p a = Some x \<Longrightarrow> p\<lparr>axisWidget := (axisWidget p)(a \<mapsto> x)\<rparr> = p"
  by (simp add: map_upd_triv)

lemma printScale_plot:
  "printScale axisId startDist endDist baseDist rect p = Inr (p', ev) \<Longrightarrow> p' = p"
  by (auto simp: printScale_def Let_def axisWidget_upd_triv split: if_splits option.splits prod.splits)

lemma printScales_plot:
  "printScales ids p = Inr (p', ev) \<Longrightarrow> p' = p"
proof (induction ids arbitrary: p p' ev)
  case Nil
  then show ?case by simp
next
  case (Cons a ids)
  then show ?case
    by (auto simp: Let_def split: option.splits prod.splits sum.splits dest: printScale_plot)
qed

lemma printLegendItem_plain: "\<forall>e \<in> set (printLegendItem i w r). is_drawing e \<and> \<not> is_scale_draw e"
  by (cases w) (auto simp: printLegendItem_def Let_def)

lemma printLegendItems_plain:
  "printLegendItems items rects i index = Inr evs
   \<Longrightarrow> \<forall>e \<in> set evs. is_drawing e \<and> \<not> is_scale_draw e"
proof (induction items rects i index arbitrary: evs rule: printLegendItems.induct)
  case (1 itemRects i index)
  then show ?case by simp
next
  case (2 item items itemRects i index)
  show ?case
  proof (cases item)
    case None
    with 2 show ?thesis by simp
  next
    case (Some w)
    with "2.prems" obtain evs' where
      r: "printLegendItems items itemRects (Suc i) (Suc index) = Inr evs'"
      and lt: "index < length itemRects"
      and evs: "evs = [Save, SetClipping True, SetClipRect (itemRects ! index)]
                  @ printLegendItem i w (toRectF (itemRects ! index)) @ [Restore] @ evs'"
      by (auto split: if_splits sum.splits)
    from "2.IH"(2) [OF Some lt r] printLegendItem_plain show ?thesis
      by (auto simp: evs)
  qed
qed

lemma printLegend_plain:
  "printLegend p r = Inr evs \<Longrightarrow> \<forall>e \<in> set evs. is_drawing e \<and> \<not> is_scale_draw e"
  by (auto simp: printLegend_def Let_def split: option.splits if_splits legend_layout.splits
        dest!: printLegendItems_plain)

lemma printCanvas_plain: "\<forall>e \<in> set (printCanvas pt r maps options). is_drawing e \<and> \<not> is_scale_draw e"
  by (auto simp: printCanvas_def Let_def split: option.splits engine_type.splits)

lemma printScale_drawing:
  "printScale axisId startDist endDist baseDist rect p = Inr (p', ev) \<Longrightarrow> \<forall>e \<in> set ev. is_drawing e"
  by (auto simp: printScale_def printScale_colorBar_def Let_def
        split: if_splits option.splits prod.splits)


lemma is_drawing_not_call:
  "is_drawing e \<Longrightarrow> \<not> is_scale_call e \<and> \<not> is_title_call e \<and> \<not> is_legend_call e
     \<and> \<not> is_canvas_call e \<and> \<not> is_layout_activate e"
  by (cases e) simp_all

lemma printScales_classes:
  "printScales ids p = Inr (p', evs) \<Longrightarrow> \<forall>e \<in> set evs. is_drawing e \<or> is_scale_call e"
proof (induction ids arbitrary: evs)
  case Nil
  then show ?case by simp
next
  case (Cons a ids)
  show ?case
  proof (cases "axisWidget p a")
    case None
    with Cons show ?thesis by simp
  next
    case (Some sw)
    with Cons.prems obtain ev evs' where
      a: "printScale a (fst (borderDistHint sw)) (snd (borderDistHint sw)) (margin sw)
            (scaleRect (layout p) a) p = Inr (p, ev)"
      and r: "printScales ids p = Inr (p', evs')"
      and evs: "evs = CallPrintScale a (fst (borderDistHint sw)) (snd (borderDistHint sw)) (margin sw)
            (scaleRect (layout p) a) # ev @ evs'"
      by (auto simp: Let_def split: prod.splits sum.splits dest: printScale_plot)
    from printScale_drawing [OF a] Cons.IH [OF r] show ?thesis
      by (auto simp: evs)
  qed
qed


lemma printScales_calls:
  "printScales ids p = Inr (p', evs)
   \<Longrightarrow> filter is_scale_call evs =
         map (\<lambda>a. CallPrintScale a (fst (borderDistHint (the (axisWidget p a))))
                     (snd (borderDistHint (the (axisWidget p a))))
                     (margin (the (axisWidget p a))) (scaleRect (layout p) a))
           [a \<leftarrow> ids. axisWidget p a \<noteq> None]"
proof (induction ids arbitrary: evs)
  case Nil
  then show ?case by simp
next
  case (Cons a ids)
  show ?case
  proof (cases "axisWidget p a")
    case None
    with Cons show ?thesis by simp
  next
    case (Some sw)
    with Cons.prems obtain ev evs' where
      a: "printScale a (fst (borderDistHint sw)) (snd (borderDistHint sw)) (margin sw)
            (scaleRect (layout p) a) p = Inr (p, ev)"
      and r: "printScales ids p = Inr (p', evs')"
      and evs: "evs = CallPrintScale a (fst (borderDistHint sw)) (snd (borderDistHint sw)) (margin sw)
            (scaleRect (layout p) a) # ev @ evs'"
      by (auto simp: Let_def split: prod.splits sum.splits dest: printScale_plot)
    from printScale_drawing [OF a] have "filter is_scale_call ev = []"
      by (auto simp: filter_empty_conv dest: is_drawing_not_call)
    with Cons.IH [OF r] Some show ?thesis
      by (simp add: evs)
  qed
qed

subsection \<open>The margins across print\<close>

text \<open>Over a list of distinct axis ids the two iterations on the margins have closed
  forms; the second undoes the first.\<close>

lemma zeroMargins_closed:
  "distinct ids \<Longrightarrow> zeroMargins ids p t =
     (p\<lparr>axisWidget := (\<lambda>a. if a \<in> set ids then map_option (margin_update (\<lambda>_. 0)) (axisWidget p a)
                              else axisWidget p a)\<rparr>,
      (\<lambda>a. if a \<in> set ids then (case axisWidget p a of None \<Rightarrow> t a | Some sw \<Rightarrow> Some (margin sw)) else t a))"
proof (induction ids arbitrary: p t)
  case Nil
  then show ?case by simp
next
  case (Cons a ids)
  then show ?case
    by (auto simp: fun_eq_iff split: option.splits intro!: arg_cong2[where f="\<lambda>f r. axisWidget_update f r"])
qed

lemma restoreMargins_closed:
  "distinct ids \<Longrightarrow> \<forall>a \<in> set ids. axisWidget q a \<noteq> None \<longrightarrow> t a \<noteq> None \<Longrightarrow>
   restoreMargins ids t q =
     Inr (q\<lparr>axisWidget := (\<lambda>a. if a \<in> set ids
                                then map_option (margin_update (\<lambda>_. the (t a))) (axisWidget q a)
                                else axisWidget q a)\<rparr>)"
proof (induction ids arbitrary: q)
  case Nil
  then show ?case by simp
next
  case (Cons a ids)
  then show ?case
    by (auto simp: fun_eq_iff split: option.splits intro!: arg_cong2[where f="\<lambda>f r. axisWidget_update f r"])
qed

lemma axisIds_distinct: "distinct axisIds"
  by (simp add: axisIds_def)

lemma print_prepare_fields:
  assumes "print_prepare L pt plotRect options p = (pb, tbl)"
  shows "axisEnabled pb = axisEnabled p" and "titleIsEmpty pb = titleIsEmpty p"
    and "plot_legend pb = plot_legend p" and "canvasMargin pb = canvasMargin p"
    and "logicalDpiX pb = logicalDpiX p" and "logicalDpiY pb = logicalDpiY p"
    and "plot_size pb = plot_size p"
    and "axisWidget pb a =
           (if has_flag options PrintFrameWithScales \<and> a \<in> set axisIds
            then map_option (margin_update (\<lambda>_. 0)) (axisWidget p a) else axisWidget p a)"
    and "has_flag options PrintFrameWithScales \<Longrightarrow>
           tbl a = (if a \<in> set axisIds then map_option margin (axisWidget p a) else None)"
  using assms
  by (auto simp: print_prepare_def Let_def zeroMargins_closed [OF axisIds_distinct]
        split: if_splits option.splits)

lemma restoreMargins_closed_at:
  "distinct ids \<Longrightarrow> axisWidget q = w \<Longrightarrow> \<forall>a \<in> set ids. w a \<noteq> None \<longrightarrow> t a \<noteq> None \<Longrightarrow>
   restoreMargins ids t q =
     Inr (q\<lparr>axisWidget := (\<lambda>a. if a \<in> set ids
                                then map_option (margin_update (\<lambda>_. the (t a))) (w a)
                                else w a)\<rparr>)"
  using restoreMargins_closed [of ids q t] by auto

lemma margins_restored:
  assumes prep: "print_prepare L pt plotRect options p = (pb, tbl)"
    and rest: "(if has_flag options PrintFrameWithScales
                then restoreMargins axisIds tbl (pb\<lparr>layout := l\<rparr>)
                else Inr (pb\<lparr>layout := l\<rparr>)) = Inr p'"
  shows "p' = p\<lparr>layout := l\<rparr>"
proof (cases "has_flag options PrintFrameWithScales")
  case False
  with prep rest show ?thesis
    by (auto simp: print_prepare_def Let_def)
next
  case True
  have dom: "\<forall>a \<in> set axisIds. axisWidget pb a \<noteq> None \<longrightarrow> tbl a \<noteq> None"
    using print_prepare_fields(8,9) [OF prep] True by auto
  obtain W Lb where pb: "pb = p\<lparr>axisWidget := W, layout := Lb\<rparr>"
    using prep True
    by (auto simp: print_prepare_def Let_def zeroMargins_closed [OF axisIds_distinct])
  have fe: "(\<lambda>a. if a \<in> set axisIds
              then map_option (margin_update (\<lambda>_. the (tbl a))) (axisWidget pb a)
              else axisWidget pb a) = axisWidget p"
  proof
    fix a
    show "(if a \<in> set axisIds
           then map_option (margin_update (\<lambda>_. the (tbl a))) (axisWidget pb a)
           else axisWidget pb a) = axisWidget p a"
      using print_prepare_fields(8) [OF prep, of a] print_prepare_fields(9) [OF prep True, of a] True
      by (cases "axisWidget p a") auto
  qed
  have "restoreMargins axisIds tbl (pb\<lparr>layout := l\<rparr>) =
          Inr (pb\<lparr>layout := l, axisWidget := (\<lambda>a. if a \<in> set axisIds
              then map_option (margin_update (\<lambda>_. the (tbl a))) (axisWidget pb a)
              else axisWidget pb a)\<rparr>)"
    using restoreMargins_closed_at [OF axisIds_distinct _ dom, of "pb\<lparr>layout := l\<rparr>"] by simp
  then have "restoreMargins axisIds tbl (pb\<lparr>layout := l\<rparr>) =
          Inr (pb\<lparr>layout := l, axisWidget := axisWidget p\<rparr>)"
    by (simp only: fe)
  with rest True have "p' = pb\<lparr>layout := l, axisWidget := axisWidget p\<rparr>"
    by simp
  then show ?thesis
    by (simp add: pb)
qed

subsection \<open>The shape of a call of print\<close>

text \<open>A call that passes the checks of lines 68 and 69 and returns has gone through every
  stage; the plot it leaves differs from the plot it was given in the layout only.\<close>

lemma print_Inr_cases:
  assumes "print L (Some pt) plotRect options p = Inr (p', tr)"
    and "print_valid pt plotRect p"
  obtains pb tbl ev3 ev4 maps where
    "logicalDpiX p \<noteq> 0" and "logicalDpiY p \<noteq> 0"
    and "print_prepare L pt plotRect options p = (pb, tbl)"
    and "print_legend_part options pb = Inr ev3"
    and "printScales axisIds pb = Inr (pb, ev4)"
    and "buildMaps axisIds pb (canvasRect (layout pb)) (replicate (nat axisCnt) default_map) = Inr maps"
    and "p' = p\<lparr>layout := invalidate (layout pb)\<rparr>"
    and "tr = [Save, FilterApply (isScaling (print_transform pt p)),
               LayoutActivate (mapRect (inverted (print_transform pt p)) plotRect) (layoutOptions_of options),
               SetTransform (print_transform pt p)]
              @ print_title_part options pb @ ev3 @ ev4
              @ ResetTransform
                # CallPrintCanvas (mapRect (print_transform pt p) (canvasRect (layout pb)))
                    (rescaleMaps axisIds (print_transform pt p) maps)
                # printCanvas pt (mapRect (print_transform pt p) (canvasRect (layout pb)))
                    (rescaleMaps axisIds (print_transform pt p) maps) options
              @ [LayoutInvalidate, FilterReset, Restore]"
proof -
  from assms have v: "isActive pt" "isValid_f plotRect" "\<not> isNull_size (plot_size p)"
    by (auto simp: print_valid_def)
  from assms v have dpi: "logicalDpiX p \<noteq> 0" "logicalDpiY p \<noteq> 0"
    by (auto simp: print_def split: if_splits)
  obtain pb tbl where prep: "print_prepare L pt plotRect options p = (pb, tbl)"
    by (cases "print_prepare L pt plotRect options p")
  from assms v dpi prep obtain ev3 where leg: "print_legend_part options pb = Inr ev3"
    by (auto simp: print_def Let_def split: sum.splits)
  from assms v dpi prep leg obtain pc ev4 where sc: "printScales axisIds pb = Inr (pc, ev4)"
    by (auto simp: print_def Let_def split: sum.splits)
  then have pc: "pc = pb" by (rule printScales_plot)
  from assms v dpi prep leg sc pc obtain maps where
    bm: "buildMaps axisIds pb (canvasRect (layout pb)) (replicate (nat axisCnt) default_map) = Inr maps"
    by (auto simp: print_def Let_def split: sum.splits)
  from assms v dpi prep leg sc pc bm have
    rest: "(if has_flag options PrintFrameWithScales
          then restoreMargins axisIds tbl (pb\<lparr>layout := invalidate (layout pb)\<rparr>)
          else Inr (pb\<lparr>layout := invalidate (layout pb)\<rparr>)) = Inr p'"
    and tr: "tr = [Save, FilterApply (isScaling (print_transform pt p)),
               LayoutActivate (mapRect (inverted (print_transform pt p)) plotRect) (layoutOptions_of options),
               SetTransform (print_transform pt p)]
              @ print_title_part options pb @ ev3 @ ev4
              @ ResetTransform
                # CallPrintCanvas (mapRect (print_transform pt p) (canvasRect (layout pb)))
                    (rescaleMaps axisIds (print_transform pt p) maps)
                # printCanvas pt (mapRect (print_transform pt p) (canvasRect (layout pb)))
                    (rescaleMaps axisIds (print_transform pt p) maps) options
              @ [LayoutInvalidate, FilterReset, Restore]"
    by (auto simp: print_def Let_def split: sum.splits if_splits)
  from margins_restored [OF prep rest] have "p' = p\<lparr>layout := invalidate (layout pb)\<rparr>" .
  with dpi prep leg sc pc bm tr show thesis using that by blast
qed

lemma print_title_part_skeleton:
  "filter (\<lambda>e. \<not> is_drawing e) (print_title_part options p) =
     (if has_flag options PrintTitle \<and> \<not> titleIsEmpty p
      then [CallPrintTitle (titleRect (layout p))] else [])"
  by (simp add: print_title_part_def printTitle_def)

lemma print_legend_part_skeleton:
  "print_legend_part options p = Inr evs \<Longrightarrow>
   filter (\<lambda>e. \<not> is_drawing e) evs =
     (if has_flag options PrintLegend
         \<and> (case plot_legend p of None \<Rightarrow> False | Some lg \<Rightarrow> \<not> leg_isEmpty lg)
      then [CallPrintLegend (legendRect (layout p))] else [])"
  by (auto simp: print_legend_part_def filter_empty_conv split: if_splits sum.splits
        dest!: printLegend_plain)

lemma printScales_skeleton:
  assumes "printScales ids p = Inr (p', evs)"
  shows "filter (\<lambda>e. \<not> is_drawing e) evs = filter is_scale_call evs"
proof (rule filter_cong [OF refl])
  fix e assume "e \<in> set evs"
  with printScales_classes [OF assms] have "is_drawing e \<or> is_scale_call e" by blast
  then show "(\<not> is_drawing e) = is_scale_call e"
    using is_drawing_not_call [of e] by blast
qed

lemma print_skeleton:
  assumes "print L (Some pt) plotRect options p = Inr (p', tr)"
    and "print_valid pt plotRect p"
    and "pb = fst (print_prepare L pt plotRect options p)"
  shows "\<exists>maps. buildMaps axisIds pb (canvasRect (layout pb)) (replicate (nat axisCnt) default_map) = Inr maps
    \<and> filter (\<lambda>e. \<not> is_drawing e) tr =
     [FilterApply (isScaling (print_transform pt p)),
      LayoutActivate (mapRect (inverted (print_transform pt p)) plotRect) (layoutOptions_of options),
      SetTransform (print_transform pt p)]
     @ (if has_flag options PrintTitle \<and> \<not> titleIsEmpty pb
        then [CallPrintTitle (titleRect (layout pb))] else [])
     @ (if has_flag options PrintLegend
           \<and> (case plot_legend pb of None \<Rightarrow> False | Some lg \<Rightarrow> \<not> leg_isEmpty lg)
        then [CallPrintLegend (legendRect (layout pb))] else [])
     @ map (\<lambda>a. CallPrintScale a (fst (borderDistHint (the (axisWidget pb a))))
                     (snd (borderDistHint (the (axisWidget pb a))))
                     (margin (the (axisWidget pb a))) (scaleRect (layout pb) a))
           [a \<leftarrow> axisIds. axisWidget pb a \<noteq> None]
     @ [ResetTransform,
        CallPrintCanvas (mapRect (print_transform pt p) (canvasRect (layout pb)))
          (rescaleMaps axisIds (print_transform pt p) maps),
        LayoutInvalidate, FilterReset]"
proof -
  from assms(1,2) obtain pb' tbl ev3 ev4 maps where
    prep: "print_prepare L pt plotRect options p = (pb', tbl)"
    and leg: "print_legend_part options pb' = Inr ev3"
    and sc: "printScales axisIds pb' = Inr (pb', ev4)"
    and bm: "buildMaps axisIds pb' (canvasRect (layout pb')) (replicate (nat axisCnt) default_map) = Inr maps"
    and tr: "tr = [Save, FilterApply (isScaling (print_transform pt p)),
               LayoutActivate (mapRect (inverted (print_transform pt p)) plotRect) (layoutOptions_of options),
               SetTransform (print_transform pt p)]
              @ print_title_part options pb' @ ev3 @ ev4
              @ ResetTransform
                # CallPrintCanvas (mapRect (print_transform pt p) (canvasRect (layout pb')))
                    (rescaleMaps axisIds (print_transform pt p) maps)
                # printCanvas pt (mapRect (print_transform pt p) (canvasRect (layout pb')))
                    (rescaleMaps axisIds (print_transform pt p) maps) options
              @ [LayoutInvalidate, FilterReset, Restore]"
    by (rule print_Inr_cases)
  from prep assms(3) have pb: "pb' = pb" by simp
  have cv: "filter (\<lambda>e. \<not> is_drawing e)
              (printCanvas pt (mapRect (print_transform pt p) (canvasRect (layout pb)))
                    (rescaleMaps axisIds (print_transform pt p) maps) options) = []"
    using printCanvas_plain by (simp add: filter_empty_conv)
  show ?thesis
    using bm
    by (simp add: tr pb [symmetric] print_title_part_skeleton print_legend_part_skeleton [OF leg]
          printScales_skeleton [OF sc] printScales_calls [OF sc] cv [unfolded pb [symmetric]])
qed

lemma filter_via_skeleton:
  "(\<And>e. P e \<Longrightarrow> \<not> is_drawing e) \<Longrightarrow>
   filter P evs = filter P (filter (\<lambda>e. \<not> is_drawing e) evs)"
  by (induction evs) auto

lemma map_filter_via_skeleton:
  "(\<And>e. f e \<noteq> None \<Longrightarrow> \<not> is_drawing e) \<Longrightarrow>
   List.map_filter f evs = List.map_filter f (filter (\<lambda>e. \<not> is_drawing e) evs)"
  by (induction evs) (auto simp: List.map_filter_def)

lemma is_layout_activate_not_drawing: "is_layout_activate e \<Longrightarrow> \<not> is_drawing e"
  by (cases e) simp_all




lemma scale_call_baseDist_not_drawing: "scale_call_baseDist e \<noteq> None \<Longrightarrow> \<not> is_drawing e"
  by (cases e) simp_all

lemma layoutOptions_of_flags:
  "has_flag (layoutOptions_of options) IgnoreScrollbars
   \<and> has_flag (layoutOptions_of options) IgnoreFrames
   \<and> (has_flag (layoutOptions_of options) IgnoreMargin \<longleftrightarrow> \<not> has_flag options PrintMargin)
   \<and> (has_flag (layoutOptions_of options) IgnoreLegend \<longleftrightarrow> \<not> has_flag options PrintLegend)"
  by (simp add: layoutOptions_of_def has_flag_def Let_def IgnoreScrollbars_def IgnoreFrames_def
        IgnoreMargin_def IgnoreLegend_def)

subsection \<open>Running the model on the example\<close>

lemmas ex_defs = ex_widget_def ex_legend_def ex_plot_def ex_engine_def ex_engine_opts_def
  ex_painter_def ex_rect_def
  ex_small_rect_def

lemmas model_defs = print_def print_prepare_def print_title_part_def print_legend_part_def
  print_transform_def layoutOptions_of_def has_flag_def axisIds_def axisCnt_def
  yLeft_def yRight_def xBottom_def xTop_def
  PrintMargin_def PrintTitle_def PrintLegend_def PrintGrid_def PrintBackground_def PrintFrameWithScales_def
  IgnoreScrollbars_def IgnoreFrames_def IgnoreMargin_def IgnoreLegend_def
  printTitle_def printLegend_def printLegendItem_def printScale_def printScale_colorBar_def
  printScale_geometry_def printCanvas_def paintInterval_def
  isValid_f_def isNull_size_def scale_transform_def identity_transform_def isScaling_def
  inverted_def mapRect_def invalidate_def null_rectf_def default_map_def setPaintInterval_def
  left_f_def right_f_def top_f_def bottom_f_def to_int_def toRect_def toRectF_def qRound_def
  setX_f_def right_i_def print_valid_def trace_of_def plot_of_def axis_factor_def

lemma result_collapse: "\<not> isl x \<Longrightarrow> x = Inr (fst (projr x), trace_of x)"
  by (cases x) (auto simp: trace_of_def)

lemma ex_valid: "print_valid ex_painter ex_rect ex_plot"
  by (simp add: ex_defs print_valid_def isValid_f_def isNull_size_def)

lemma replicate_four: "replicate 4 x = [x, x, x, x]"
  by (simp add: eval_nat_numeral)

lemma update_four:
  "[a, b, c, d][0 := x] = [x, b, c, d]" "[a, b, c, d][Suc 0 := x] = [a, x, c, d]"
  "[a, b, c, d][2 := x] = [a, b, x, d]" "[a, b, c, d][3 := x] = [a, b, c, x]"
  by (simp_all add: eval_nat_numeral)

lemmas ex_eval = ex_defs model_defs Let_def replicate_four update_four


lemma ex_returns_38: "\<not> isl (print ex_engine (Some ex_painter) ex_rect 38 ex_plot)"
  by (simp add: ex_eval)


lemma ex_trace_38:
  "trace_of (print ex_engine (Some ex_painter) ex_rect 38 ex_plot) =
   [Save, FilterApply True,
    LayoutActivate \<lparr>rx = 0, ry = 0, rw = 400, rh = 300\<rparr> 7,
    SetTransform \<lparr>m11 = 2, m22 = 2\<rparr>,
    CallPrintTitle \<lparr>rx = 0, ry = 0, rw = 400, rh = 20\<rparr>, SetFont TitleFont,
    SetPen TitleTextColor,
    DrawText TitleText \<lparr>rx = 0, ry = 0, rw = 400, rh = 20\<rparr>,
    CallPrintLegend \<lparr>rx = 0, ry = 280, rw = 400, rh = 20\<rparr>, Save,
    SetClipping True, SetClipRect \<lparr>ix = 0, iy = 280, iw = 400, ih = 20\<rparr>, Save,
    DrawLegendIdentifier 0 \<lparr>ix = 2, iy = 280, iw = 10, ih = 20\<rparr>, Restore,
    SetFont (LegendItemFont 0),
    DrawText (LegendItemText 0) \<lparr>rx = 17, ry = 280, rw = 383, rh = 20\<rparr>,
    Restore, CallPrintScale 0 5 6 0 \<lparr>rx = 0, ry = 20, rw = 30, rh = 230\<rparr>,
    DrawColorBar 0 \<lparr>rx = 0, ry = 20, rw = 29, rh = 229\<rparr>,
    DrawScaleTitle 0 LeftScale \<lparr>rx = 0, ry = 20, rw = 30, rh = 230\<rparr>, Save,
    SetFont (ScaleFont 0), SetPen (ScalePen 1), DrawScale 0 (19, 25) 219,
    Restore, CallPrintScale 1 5 6 0 \<lparr>rx = 0, ry = 0, rw = 0, rh = 0\<rparr>,
    CallPrintScale 2 5 6 0 \<lparr>rx = 30, ry = 250, rw = 370, rh = 30\<rparr>,
    DrawColorBar 2 \<lparr>rx = 30, ry = 250, rw = 369, rh = 29\<rparr>,
    DrawScaleTitle 2 BottomScale \<lparr>rx = 30, ry = 250, rw = 370, rh = 30\<rparr>, Save,
    SetFont (ScaleFont 2), SetPen (ScalePen 1), DrawScale 2 (35, 260) 359,
    Restore, CallPrintScale 3 5 6 0 \<lparr>rx = 0, ry = 0, rw = 0, rh = 0\<rparr>,
    ResetTransform,
    CallPrintCanvas \<lparr>rx = 60, ry = 40, rw = 740, rh = 460\<rparr>
     [\<lparr>map_transformation = Linear, s1 = 0, s2 = 100, p1 = 488, p2 = 50\<rparr>,
      \<lparr>map_transformation = Linear, s1 = 0, s2 = 100, p1 = 490, p2 = 48\<rparr>,
      \<lparr>map_transformation = Linear, s1 = 0, s2 = 100, p1 = 70, p2 = 788\<rparr>,
      \<lparr>map_transformation = Linear, s1 = 0, s2 = 100, p1 = 68, p2 = 790\<rparr>],
    Save, SetPen BlackPen, SetNoBrush,
    DrawRect \<lparr>rx = 60, ry = 40, rw = 740, rh = 460\<rparr>, Restore,
    SetClipping True, SetClipRect \<lparr>ix = 60, iy = 40, iw = 740, ih = 460\<rparr>,
    DrawItems \<lparr>rx = 60, ry = 40, rw = 740, rh = 460\<rparr>
     [\<lparr>map_transformation = Linear, s1 = 0, s2 = 100, p1 = 488, p2 = 50\<rparr>,
      \<lparr>map_transformation = Linear, s1 = 0, s2 = 100, p1 = 490, p2 = 48\<rparr>,
      \<lparr>map_transformation = Linear, s1 = 0, s2 = 100, p1 = 70, p2 = 788\<rparr>,
      \<lparr>map_transformation = Linear, s1 = 0, s2 = 100, p1 = 68, p2 = 790\<rparr>]
     38,
    LayoutInvalidate, FilterReset, Restore]"
  by (simp add: ex_eval)

subsection \<open>The scales drawn and the call of printCanvas\<close>

lemma print_invalid:
  "\<not> print_valid pt plotRect p \<Longrightarrow> print L (Some pt) plotRect options p = Inr (p, [])"
  by (auto simp: print_def print_valid_def)














subsection \<open>Rounding to binary64 and the comparison with 1\<close>

lemma div_times_bounds:
  fixes n d :: int
  assumes "0 < d"
  shows "n div d * d \<le> n" and "n < n div d * d + d" and "0 < n mod d \<Longrightarrow> n div d * d < n"
proof -
  have "n div d * d = n - n mod d" by (simp add: minus_mod_eq_div_mult)
  moreover have "0 \<le> n mod d" "n mod d < d" using assms by simp_all
  ultimately show "n div d * d \<le> n" and "n < n div d * d + d"
    and "0 < n mod d \<Longrightarrow> n div d * d < n"
    by linarith+
qed

lemma round_half_even_le:
  assumes "0 < d" and "n \<le> N * d"
  shows "round_half_even n d \<le> N"
proof -
  have q: "n div d \<le> N"
  proof (rule ccontr)
    assume "\<not> n div d \<le> N"
    then have "N + 1 \<le> n div d" by simp
    then have "(N + 1) * d \<le> n div d * d" using assms(1) by (simp add: mult_right_mono)
    then have "N * d + d \<le> n div d * d" by (simp add: algebra_simps)
    with div_times_bounds(1) [OF assms(1), of n] assms show False by linarith
  qed
  have q1: "n div d + 1 \<le> N" if "0 < n mod d"
  proof (rule ccontr)
    assume "\<not> n div d + 1 \<le> N"
    with q have "n div d = N" by simp
    with div_times_bounds(3) [OF assms(1) that] assms(2) show False by simp
  qed
  have r: "0 \<le> n mod d" using assms(1) by simp
  show ?thesis
    using q q1 r assms(1) by (auto simp: round_half_even_def Let_def)
qed

lemma round_half_even_ge:
  assumes "0 < d" and "N * d \<le> n"
  shows "N \<le> round_half_even n d"
proof -
  have q: "N \<le> n div d"
  proof (rule ccontr)
    assume "\<not> N \<le> n div d"
    then have "n div d + 1 \<le> N" by simp
    then have "(n div d + 1) * d \<le> N * d" using assms(1) by (simp add: mult_right_mono)
    then have "n div d * d + d \<le> N * d" by (simp add: algebra_simps)
    with div_times_bounds(2) [OF assms(1), of n] assms show False by linarith
  qed
  then show ?thesis
    by (auto simp: round_half_even_def Let_def)
qed

lemma binary64_exponent_le: "binary64_exponent n d \<le> bitlen n - bitlen d"
  by (simp add: binary64_exponent_def Let_def)

lemma bitlen_mono: "0 < a \<Longrightarrow> a \<le> b \<Longrightarrow> bitlen a \<le> bitlen b"
  using bitlen_bounds [of b] bitlen_nonneg [of b]
  by (simp add: bitlen_le_iff_power)

lemma bitlen_pos: "0 < a \<Longrightarrow> 1 \<le> bitlen a"
  using bitlen_eq_zero_iff [of a] bitlen_nonneg [of a] by linarith

lemma double_quotient_ge_one:
  assumes "0 < h" and "h \<le> w" and "w < 2 ^ 31"
  shows "\<not> double_less_one (double_quotient w h)"
proof -
  have "bitlen w \<le> 31" using assms by (simp add: bitlen_le_iff_power)
  moreover have "1 \<le> bitlen h" using assms by (simp add: bitlen_pos)
  ultimately have e: "binary64_exponent w h \<le> 30"
    using binary64_exponent_le [of w h] by linarith
  define s where "s = 52 - binary64_exponent w h"
  have s: "0 \<le> s" using e by (simp add: s_def)
  have ns: "nat (binary64_exponent w h - 52) = 0" using e by simp
  have "2 ^ nat s * h \<le> w * 2 ^ nat s" using assms by simp
  then have "2 ^ nat s \<le> round_half_even (w * 2 ^ nat s) h"
    using assms(1) by (intro round_half_even_ge) simp_all
  then show ?thesis
    using assms s
    by (simp add: double_less_one_def double_quotient_def binary64_round_def Let_def ns
          s_def [symmetric])
qed

lemma double_quotient_less_one:
  assumes "0 \<le> w" and "w < h" and "h < 2 ^ 31"
  shows "0 \<le> fst (double_quotient w h) \<and> fst (double_quotient w h) < snd (double_quotient w h)
         \<and> (\<exists>k. snd (double_quotient w h) = 2 ^ k)"
proof (cases "w = 0")
  case True
  have "\<exists>k::nat. (1::int) = 2 ^ k" by (rule exI [of _ 0]) simp
  with True show ?thesis using assms
    by (simp add: double_quotient_def binary64_round_def)
next
  case False
  with assms have w: "0 < w" by simp
  have "bitlen w \<le> bitlen h" using w assms by (simp add: bitlen_mono)
  then have e: "binary64_exponent w h \<le> 0"
    using binary64_exponent_le [of w h] by linarith
  define s where "s = 52 - binary64_exponent w h"
  have s: "52 \<le> s" using e by (simp add: s_def)
  have ns: "nat (binary64_exponent w h - 52) = 0" using e by simp
  have "(2::int) ^ 52 \<le> 2 ^ nat s"
    using s by (intro power_increasing) simp_all
  with assms have hs: "h \<le> 2 ^ nat s" by simp
  have "w * 2 ^ nat s \<le> (h - 1) * 2 ^ nat s" using assms by (simp add: mult_right_mono)
  also have "\<dots> = h * 2 ^ nat s - 2 ^ nat s" by (simp add: algebra_simps)
  also have "\<dots> \<le> h * 2 ^ nat s - h" using hs by simp
  also have "\<dots> = (2 ^ nat s - 1) * h" by (simp add: algebra_simps)
  finally have "round_half_even (w * 2 ^ nat s) h \<le> 2 ^ nat s - 1"
    using assms w by (intro round_half_even_le) simp_all
  moreover have "0 \<le> round_half_even (w * 2 ^ nat s) h"
    using assms w by (intro round_half_even_ge) simp_all
  ultimately show ?thesis
    using assms w
    by (auto simp: double_quotient_def binary64_round_def Let_def ns s_def [symmetric])
qed

lemma double_times_int_le:
  assumes "0 \<le> na" and "na < 2 ^ k" and "0 \<le> w" and "w < 2 ^ 31"
  shows "0 \<le> double_to_int (double_times_int (na, 2 ^ k) w)
         \<and> double_to_int (double_times_int (na, 2 ^ k) w) \<le> w"
proof (cases "na * w = 0")
  case True
  with assms(3) show ?thesis
    by (simp add: double_times_int_def binary64_round_def double_to_int_def)
next
  case False
  with assms have pos: "0 < na" "0 < w" "0 < na * w"
    by (auto simp: zero_less_mult_iff less_le)
  have "na * w < 2 ^ k * 2 ^ 31"
    using assms pos by (intro mult_strict_mono) simp_all
  then have "na * w < 2 ^ nat (int k + 31)"
    by (simp add: nat_add_distrib power_add)
  then have "bitlen (na * w) \<le> int k + 31"
    by (simp add: bitlen_le_iff_power)
  moreover have "bitlen (2 ^ k) = int k + 1"
    using bitlen_pow2 [of 1 k] by (simp add: compute_bitlen [of 1])
  ultimately have e: "binary64_exponent (na * w) (2 ^ k) \<le> 30"
    using binary64_exponent_le [of "na * w" "2 ^ k"] by linarith
  define s where "s = 52 - binary64_exponent (na * w) (2 ^ k)"
  have s: "0 \<le> s" using e by (simp add: s_def)
  have ns: "nat (binary64_exponent (na * w) (2 ^ k) - 52) = 0" using e by simp
  define m where "m = round_half_even (na * w * 2 ^ nat s) (2 ^ k)"
  have "w * na \<le> w * 2 ^ k"
    using assms by (intro mult_left_mono) simp_all
  then have "na * w \<le> w * 2 ^ k"
    by (simp add: mult.commute)
  then have "(na * w) * 2 ^ nat s \<le> (w * 2 ^ k) * 2 ^ nat s"
    by (intro mult_right_mono) simp_all
  then have "na * w * 2 ^ nat s \<le> w * 2 ^ nat s * 2 ^ k"
    by (simp add: mult.assoc mult.left_commute mult.commute)
  then have up: "m \<le> w * 2 ^ nat s"
    unfolding m_def by (intro round_half_even_le) simp_all
  have lo: "0 \<le> m"
    unfolding m_def using pos by (intro round_half_even_ge) simp_all
  have val: "double_times_int (na, 2 ^ k) w = (m, 2 ^ nat s)"
    using pos False
    by (simp add: double_times_int_def binary64_round_def Let_def ns s_def [symmetric]
          m_def [symmetric] abs_of_pos)
  from up have "m div 2 ^ nat s \<le> w * 2 ^ nat s div 2 ^ nat s"
    by (intro zdiv_mono1) simp_all
  then have "m div 2 ^ nat s \<le> w" by simp
  moreover have "0 \<le> m div 2 ^ nat s"
    using lo by (simp add: pos_imp_zdiv_nonneg_iff)
  ultimately show ?thesis
    using lo by (simp add: val double_to_int_def)
qed

lemma call_rect_not_drawing: "call_rect e \<noteq> None \<Longrightarrow> \<not> is_drawing e"
  by (cases e) simp_all

lemma ex_opts_returns_0: "\<not> isl (print ex_engine_opts (Some ex_painter) ex_rect 0 ex_plot)"
  by (simp add: ex_eval)

lemma ex_opts_returns_36: "\<not> isl (print ex_engine_opts (Some ex_painter) ex_rect 36 ex_plot)"
  by (simp add: ex_eval)

text \<open>The parts of \<open>binary64_round\<close> do what they are named for:
  \<open>round_half_even\<close> answers an integer nearest to the fraction, the even one at a
  tie, and \<open>binary64_exponent\<close> the exponent of the fraction.\<close>

lemma round_half_even_nearest:
  assumes "0 < d"
  shows "\<bar>2 * (round_half_even n d * d - n)\<bar> \<le> d"
proof -
  define q where "q = n div d"
  define r where "r = n mod d"
  have n: "n = q * d + r" by (simp add: q_def r_def)
  have r: "0 \<le> r" "r < d" using assms by (simp_all add: r_def)
  have "round_half_even n d = q \<and> 2 * r \<le> d \<or> round_half_even n d = q + 1 \<and> d \<le> 2 * r"
    by (auto simp: round_half_even_def Let_def q_def r_def)
  then show ?thesis
  proof
    assume a: "round_half_even n d = q \<and> 2 * r \<le> d"
    then have "round_half_even n d * d - n = - r" by (simp add: n)
    with a r show ?thesis by simp
  next
    assume a: "round_half_even n d = q + 1 \<and> d \<le> 2 * r"
    then have "round_half_even n d * d - n = d - r" by (simp add: n algebra_simps)
    with a r show ?thesis by simp
  qed
qed

lemma round_half_even_tie:
  assumes "0 < d" and "2 * (n mod d) = d"
  shows "even (round_half_even n d)"
  using assms by (auto simp: round_half_even_def Let_def)

lemma binary64_exponent_bounds:
  assumes "0 < n" and "0 < d" and "e = binary64_exponent n d"
  shows "d * 2 ^ nat e \<le> n * 2 ^ nat (- e)"
    and "n * 2 ^ nat (- (e + 1)) < d * 2 ^ nat (e + 1)"
proof -
  define bn where "bn = bitlen n"
  define bd where "bd = bitlen d"
  have bn: "2 ^ nat (bn - 1) \<le> n" "n < 2 ^ nat bn" "1 \<le> bn"
    using bitlen_bounds [OF assms(1)] bitlen_pos [OF assms(1)] by (simp_all add: bn_def)
  have bd: "2 ^ nat (bd - 1) \<le> d" "d < 2 ^ nat bd" "1 \<le> bd"
    using bitlen_bounds [OF assms(2)] bitlen_pos [OF assms(2)] by (simp_all add: bd_def)
  define e0 where "e0 = bn - bd"
  have up: "n * 2 ^ nat (- (e0 + 1)) < d * 2 ^ nat (e0 + 1)"
  proof (cases "0 \<le> e0 + 1")
    case True
    have "n < 2 ^ nat bn" by (rule bn(2))
    also have "\<dots> = 2 ^ nat (bd - 1) * 2 ^ nat (e0 + 1)"
      using True bd(3) bn(3) by (simp add: e0_def power_add [symmetric] nat_add_distrib [symmetric])
    also have "\<dots> \<le> d * 2 ^ nat (e0 + 1)"
      using bd(1) by (intro mult_right_mono) simp_all
    finally show ?thesis using True by simp
  next
    case False
    have "n * 2 ^ nat (- (e0 + 1)) < 2 ^ nat bn * 2 ^ nat (- (e0 + 1))"
      using bn(2) by (intro mult_strict_right_mono) simp_all
    also have "\<dots> = 2 ^ nat (bd - 1)"
      using False bd(3) bn(3) by (simp add: e0_def power_add [symmetric] nat_add_distrib [symmetric])
    also have "\<dots> \<le> d" by (rule bd(1))
    finally show ?thesis using False by simp
  qed
  have lo: "d * 2 ^ nat (e0 - 1) \<le> n * 2 ^ nat (- (e0 - 1))"
  proof (cases "0 \<le> e0 - 1")
    case True
    have "d * 2 ^ nat (e0 - 1) \<le> 2 ^ nat bd * 2 ^ nat (e0 - 1)"
      using bd(2) by (intro mult_right_mono) simp_all
    also have "\<dots> = 2 ^ nat (bn - 1)"
      using True bd(3) bn(3) by (simp add: e0_def power_add [symmetric] nat_add_distrib [symmetric])
    also have "\<dots> \<le> n" by (rule bn(1))
    finally show ?thesis using True by simp
  next
    case False
    have "d \<le> 2 ^ nat bd" using bd(2) by simp
    also have "\<dots> = 2 ^ nat (bn - 1) * 2 ^ nat (- (e0 - 1))"
      using False bd(3) bn(3) by (simp add: e0_def power_add [symmetric] nat_add_distrib [symmetric])
    also have "\<dots> \<le> n * 2 ^ nat (- (e0 - 1))"
      using bn(1) by (intro mult_right_mono) simp_all
    finally show ?thesis using False by simp
  qed
  have e: "e = (if n * 2 ^ nat (- e0) < d * 2 ^ nat e0 then e0 - 1 else e0)"
    by (simp add: assms(3) binary64_exponent_def Let_def e0_def bn_def bd_def)
  show "d * 2 ^ nat e \<le> n * 2 ^ nat (- e)"
    using lo e by (auto split: if_splits)
  show "n * 2 ^ nat (- (e + 1)) < d * 2 ^ nat (e + 1)"
    using up e by (auto split: if_splits)
qed

subsection \<open>Degenerate calls\<close>

text \<open>
  Claim C1. When the painter is null or not active, or the rectangle is not valid, or the
  size of the widget is null, \<open>print\<close> returns at once: no call is made on any
  collaborator (no drawing, no \<open>apply\<close> and no \<open>reset\<close> of the filter, no layout
  call) and the plot, with its margins, scale draws and layout, is the plot it was given.
\<close>

theorem print_degenerate_is_noop:
  "(case painter of None \<Rightarrow> True | Some pt \<Rightarrow> \<not> isActive pt) \<or> \<not> isValid_f plotRect
     \<or> isNull_size (plot_size p)
   \<Longrightarrow> print L painter plotRect options p = Inr (p, [])"
  by (auto simp: print_def split: option.splits)

theorem print_degenerate_is_noop_witness:
  "print ex_engine None ex_rect 38 ex_plot = Inr (ex_plot, [])
   \<and> print ex_engine (Some (ex_painter\<lparr>isActive := False\<rparr>)) ex_rect 38 ex_plot = Inr (ex_plot, [])
   \<and> print ex_engine (Some ex_painter) null_rectf 38 ex_plot = Inr (ex_plot, [])
   \<and> print ex_engine (Some ex_painter) ex_rect 38 (ex_plot\<lparr>plot_size := (0, 0)\<rparr>)
       = Inr (ex_plot\<lparr>plot_size := (0, 0)\<rparr>, [])"
  using print_degenerate_is_noop [of None ex_rect ex_plot ex_engine 38]
    print_degenerate_is_noop [of "Some (ex_painter\<lparr>isActive := False\<rparr>)" ex_rect ex_plot ex_engine 38]
    print_degenerate_is_noop [of "Some ex_painter" null_rectf ex_plot ex_engine 38]
    print_degenerate_is_noop [of "Some ex_painter" ex_rect "ex_plot\<lparr>plot_size := (0, 0)\<rparr>" ex_engine 38]
  by (simp add: isValid_f_def null_rectf_def isNull_size_def)

subsection \<open>The colour bar offset\<close>


subsection \<open>The margins of the scale widgets\<close>

text \<open>
  Claim C2. When \<open>print\<close> is called with \<open>PrintFrameWithScales\<close> set and returns,
  every axis has the scale widget it had before the call, hence the margin it had
  before the call; and in a call that passes the checks of lines 68 and 69 the margin was
  0 in between: \<open>printScale\<close> is called once for each axis that has a scale widget,
  with the base distance 0.
\<close>

theorem print_margin_roundtrip:
  assumes "print L (Some pt) plotRect options p = Inr (p', tr)"
    and "has_flag options PrintFrameWithScales"
  shows "axisWidget p' a = axisWidget p a
         \<and> (print_valid pt plotRect p \<longrightarrow>
              List.map_filter scale_call_baseDist tr =
                map (\<lambda>a. (a, 0)) [a \<leftarrow> axisIds. axisWidget p a \<noteq> None])"
proof (cases "print_valid pt plotRect p")
  case False
  with assms(1) print_invalid [OF False, of L options] show ?thesis by simp
next
  case True
  obtain pb tbl where prep: "print_prepare L pt plotRect options p = (pb, tbl)"
    by (cases "print_prepare L pt plotRect options p")
  from print_Inr_cases [OF assms(1) True] prep have p': "p' = p\<lparr>layout := invalidate (layout pb)\<rparr>"
    by auto
  have wid: "\<And>a. axisWidget pb a \<noteq> None \<longleftrightarrow> axisWidget p a \<noteq> None"
    using print_prepare_fields(8) [OF prep] by (auto split: if_splits)
  have zero: "\<And>a. a \<in> set axisIds \<Longrightarrow> axisWidget pb a \<noteq> None \<Longrightarrow> margin (the (axisWidget pb a)) = 0"
    using print_prepare_fields(8) [OF prep] assms(2) by auto
  have pbeq: "pb = fst (print_prepare L pt plotRect options p)"
    using prep by simp
  from print_skeleton [OF assms(1) True pbeq] obtain maps where
    sk: "filter (\<lambda>e. \<not> is_drawing e) tr =
     [FilterApply (isScaling (print_transform pt p)),
      LayoutActivate (mapRect (inverted (print_transform pt p)) plotRect) (layoutOptions_of options),
      SetTransform (print_transform pt p)]
     @ (if has_flag options PrintTitle \<and> \<not> titleIsEmpty pb
        then [CallPrintTitle (titleRect (layout pb))] else [])
     @ (if has_flag options PrintLegend
           \<and> (case plot_legend pb of None \<Rightarrow> False | Some lg \<Rightarrow> \<not> leg_isEmpty lg)
        then [CallPrintLegend (legendRect (layout pb))] else [])
     @ map (\<lambda>a. CallPrintScale a (fst (borderDistHint (the (axisWidget pb a))))
                     (snd (borderDistHint (the (axisWidget pb a))))
                     (margin (the (axisWidget pb a))) (scaleRect (layout pb) a))
           [a \<leftarrow> axisIds. axisWidget pb a \<noteq> None]
     @ [ResetTransform,
        CallPrintCanvas (mapRect (print_transform pt p) (canvasRect (layout pb)))
          (rescaleMaps axisIds (print_transform pt p) maps),
        LayoutInvalidate, FilterReset]"
    by blast
  have "List.map_filter scale_call_baseDist tr =
          map (\<lambda>a. (a, margin (the (axisWidget pb a)))) [a \<leftarrow> axisIds. axisWidget pb a \<noteq> None]"
    by (subst map_filter_via_skeleton [of scale_call_baseDist, OF scale_call_baseDist_not_drawing])
       (simp_all add: sk List.map_filter_def comp_def filter_map)
  also have "\<dots> = map (\<lambda>a. (a, 0)) [a \<leftarrow> axisIds. axisWidget pb a \<noteq> None]"
    using zero by (intro map_cong) auto
  finally have "List.map_filter scale_call_baseDist tr =
      map (\<lambda>a. (a, 0)) [a \<leftarrow> axisIds. axisWidget pb a \<noteq> None]" .
  moreover have "[a \<leftarrow> axisIds. axisWidget pb a \<noteq> None] = [a \<leftarrow> axisIds. axisWidget p a \<noteq> None]"
    by (rule filter_cong [OF refl]) (use wid in blast)
  ultimately have "List.map_filter scale_call_baseDist tr =
      map (\<lambda>a. (a, 0)) [a \<leftarrow> axisIds. axisWidget p a \<noteq> None]"
    by (simp only:)
  moreover have "axisWidget p' a = axisWidget p a" by (simp add: p')
  ultimately show ?thesis by blast
qed

theorem print_margin_roundtrip_witness:
  "has_flag 38 PrintFrameWithScales
   \<and> \<not> isl (print ex_engine (Some ex_painter) ex_rect 38 ex_plot)
   \<and> map_option margin (axisWidget (fst (projr (print ex_engine (Some ex_painter) ex_rect 38 ex_plot))) 0)
       = Some 4
   \<and> List.map_filter scale_call_baseDist (trace_of (print ex_engine (Some ex_painter) ex_rect 38 ex_plot))
       = [(0, 0), (1, 0), (2, 0), (3, 0)]"
  using print_margin_roundtrip [OF result_collapse [OF ex_returns_38], of 0]
    ex_valid ex_returns_38
  by (simp add: ex_trace_38 List.map_filter_def)
     (simp add: ex_defs has_flag_def PrintFrameWithScales_def axisIds_def)

subsection \<open>The scale draw across printScale\<close>

text \<open>
  Claim C6. When \<open>printScale\<close> returns, on whatever path (the axis disabled, the axis id
  none of the four, or the scale drawn), the position and the length of the scale draw of
  every axis are those before the call; indeed the plot is the plot before the call.
\<close>

theorem printScale_restores_scale_draw:
  assumes "printScale axisId startDist endDist baseDist rect p = Inr (p', ev)"
  shows "map_option sd_pos (axisWidget p' a) = map_option sd_pos (axisWidget p a)
         \<and> map_option sd_length (axisWidget p' a) = map_option sd_length (axisWidget p a)
         \<and> p' = p"
  using printScale_plot [OF assms] by simp

theorem printScale_restores_scale_draw_witness:
  "snd (projr (printScale 0 5 6 4 \<lparr>rx = 0, ry = 20, rw = 30, rh = 230\<rparr> ex_plot))
     = [DrawColorBar 0 \<lparr>rx = 0, ry = 20, rw = 29, rh = 229\<rparr>,
        DrawScaleTitle 0 LeftScale \<lparr>rx = 0, ry = 20, rw = 30, rh = 230\<rparr>, Save,
        SetFont (ScaleFont 0), SetPen (ScalePen 1), DrawScale 0 (15, 25) 219, Restore]
   \<and> map_option sd_pos
        (axisWidget (fst (projr (printScale 0 5 6 4 \<lparr>rx = 0, ry = 20, rw = 30, rh = 230\<rparr> ex_plot))) 0)
       = Some (0, 0)
   \<and> map_option sd_length
        (axisWidget (fst (projr (printScale 0 5 6 4 \<lparr>rx = 0, ry = 20, rw = 30, rh = 230\<rparr> ex_plot))) 0)
       = Some 100
   \<and> printScale 1 5 6 4 null_rectf ex_plot = Inr (ex_plot, [])
   \<and> trace_of (printScale 7 5 6 4 null_rectf
         (ex_plot\<lparr>axisEnabled := (\<lambda>_. True), axisWidget := (\<lambda>_. Some ex_widget)\<rparr>))
       = [DrawColorBar 7 \<lparr>rx = 0, ry = 0, rw = - 1, rh = - 1\<rparr>]"
proof -
  have r: "\<not> isl (printScale 0 5 6 4 \<lparr>rx = 0, ry = 20, rw = 30, rh = 230\<rparr> ex_plot)"
    by (simp add: ex_eval)
  have "printScale 0 5 6 4 \<lparr>rx = 0, ry = 20, rw = 30, rh = 230\<rparr> ex_plot =
          Inr (fst (projr (printScale 0 5 6 4 \<lparr>rx = 0, ry = 20, rw = 30, rh = 230\<rparr> ex_plot)),
               snd (projr (printScale 0 5 6 4 \<lparr>rx = 0, ry = 20, rw = 30, rh = 230\<rparr> ex_plot)))"
    using r by simp
  from printScale_restores_scale_draw [OF this, of 0]
  have "map_option sd_pos
        (axisWidget (fst (projr (printScale 0 5 6 4 \<lparr>rx = 0, ry = 20, rw = 30, rh = 230\<rparr> ex_plot))) 0)
       = Some (0, 0)
     \<and> map_option sd_length
        (axisWidget (fst (projr (printScale 0 5 6 4 \<lparr>rx = 0, ry = 20, rw = 30, rh = 230\<rparr> ex_plot))) 0)
       = Some 100"
    by (simp add: ex_defs)
  moreover have "snd (projr (printScale 0 5 6 4 \<lparr>rx = 0, ry = 20, rw = 30, rh = 230\<rparr> ex_plot))
     = [DrawColorBar 0 \<lparr>rx = 0, ry = 20, rw = 29, rh = 229\<rparr>,
        DrawScaleTitle 0 LeftScale \<lparr>rx = 0, ry = 20, rw = 30, rh = 230\<rparr>, Save,
        SetFont (ScaleFont 0), SetPen (ScalePen 1), DrawScale 0 (15, 25) 219, Restore]"
    by (simp add: ex_eval)
  moreover have "printScale 1 5 6 4 null_rectf ex_plot = Inr (ex_plot, [])"
    by (simp add: printScale_def ex_plot_def)
  moreover have "trace_of (printScale 7 5 6 4 null_rectf
         (ex_plot\<lparr>axisEnabled := (\<lambda>_. True), axisWidget := (\<lambda>_. Some ex_widget)\<rparr>))
       = [DrawColorBar 7 \<lparr>rx = 0, ry = 0, rw = - 1, rh = - 1\<rparr>]"
    by (simp add: ex_eval)
  ultimately show ?thesis by blast
qed

subsection \<open>The regions that are drawn\<close>




subsection \<open>The arguments of printCanvas\<close>



subsection \<open>The direction of a vertical axis\<close>




subsection \<open>The paint interval of a disabled axis\<close>




subsection \<open>The rectangle of a paint device\<close>

text \<open>
  Claim C10. For a device of width \<open>w\<close> and height \<open>h\<close> (32-bit ints, neither
  negative), the paint-device overload prints into the rectangle at (0, 0) of width \<open>w\<close>
  and height \<open>h\<close>, except that for \<open>w < h\<close> the height is \<open>int((w / h) * w)\<close>, the
  quotient and the product rounded as doubles and the result truncated; this height is
  not negative, at most \<open>w\<close> and so less than \<open>h\<close>. A landscape or square device keeps
  its full rectangle.
\<close>

theorem print_device_rect_portrait:
  assumes "0 \<le> w" and "0 \<le> h" and "w < 2 ^ 31" and "h < 2 ^ 31"
  shows "print_device_rect w h =
           Some (if w < h
                 then \<lparr>ix = 0, iy = 0, iw = w,
                        ih = double_to_int (double_times_int (double_quotient w h) w)\<rparr>
                 else \<lparr>ix = 0, iy = 0, iw = w, ih = h\<rparr>)
         \<and> (w < h \<longrightarrow> 0 \<le> double_to_int (double_times_int (double_quotient w h) w)
                    \<and> double_to_int (double_times_int (double_quotient w h) w) \<le> w
                    \<and> double_to_int (double_times_int (double_quotient w h) w) < h)
         \<and> print_device L pt w h options p =
             Some (print L (Some pt)
                     (toRectF (if w < h
                               then \<lparr>ix = 0, iy = 0, iw = w,
                                      ih = double_to_int (double_times_int (double_quotient w h) w)\<rparr>
                               else \<lparr>ix = 0, iy = 0, iw = w, ih = h\<rparr>)) options p)"
proof -
  have short: "0 \<le> double_to_int (double_times_int (double_quotient w h) w)
      \<and> double_to_int (double_times_int (double_quotient w h) w) \<le> w" if "w < h"
  proof -
    from double_quotient_less_one [OF assms(1) that assms(4)] obtain k where
      q: "0 \<le> fst (double_quotient w h)" "fst (double_quotient w h) < 2 ^ k"
        "snd (double_quotient w h) = 2 ^ k"
      by auto
    from q(3) have "double_quotient w h = (fst (double_quotient w h), 2 ^ k)"
      by (metis prod.collapse)
    with double_times_int_le [OF q(1,2) assms(1,3)] show ?thesis by simp
  qed
  have rect: "print_device_rect w h =
           Some (if w < h
                 then \<lparr>ix = 0, iy = 0, iw = w,
                        ih = double_to_int (double_times_int (double_quotient w h) w)\<rparr>
                 else \<lparr>ix = 0, iy = 0, iw = w, ih = h\<rparr>)"
  proof (cases "w < h")
    case True
    from double_quotient_less_one [OF assms(1) True assms(4)]
    have "double_less_one (double_quotient w h)" by (simp add: double_less_one_def)
    with True short assms show ?thesis
      by (simp add: print_device_rect_def Let_def setHeight_i_def)
  next
    case False
    show ?thesis
    proof (cases "h = 0")
      case True
      with False assms show ?thesis by (simp add: print_device_rect_def)
    next
      case nz: False
      with assms False have "0 < h" "h \<le> w" by simp_all
      from double_quotient_ge_one [OF this assms(3)] False nz show ?thesis
        by (simp add: print_device_rect_def Let_def)
    qed
  qed
  have "double_to_int (double_times_int (double_quotient w h) w) < h" if "w < h"
    using short [OF that] that by simp
  with rect short show ?thesis by (simp add: print_device_def)
qed

theorem print_device_rect_portrait_witness:
  "print_device_rect 700 1000 = Some \<lparr>ix = 0, iy = 0, iw = 700, ih = 489\<rparr>
   \<and> print_device_rect 49 2401 = Some \<lparr>ix = 0, iy = 0, iw = 49, ih = 0\<rparr>
   \<and> print_device_rect 300 400 = Some \<lparr>ix = 0, iy = 0, iw = 300, ih = 225\<rparr>
   \<and> print_device_rect 400 300 = Some \<lparr>ix = 0, iy = 0, iw = 400, ih = 300\<rparr>
   \<and> print_device_rect 300 300 = Some \<lparr>ix = 0, iy = 0, iw = 300, ih = 300\<rparr>"
proof -
  have "double_to_int (double_times_int (double_quotient 700 1000) 700) = 489"
    and "double_to_int (double_times_int (double_quotient 49 2401) 49) = 0"
    and "double_to_int (double_times_int (double_quotient 300 400) 300) = 225"
    by code_simp+
  with print_device_rect_portrait [of 700 1000] print_device_rect_portrait [of 49 2401]
    print_device_rect_portrait [of 300 400] print_device_rect_portrait [of 400 300]
    print_device_rect_portrait [of 300 300]
  show ?thesis by simp
qed

subsection \<open>The activation of the layout\<close>

text \<open>
  Claim C8. In a call of \<open>print\<close> that passes the checks of lines 68 and 69 the layout
  engine \<open>L\<close> is activated once: on the plot \<open>pa\<close> (margins set to 0 if the frame is
  printed with the scales), with the print rectangle mapped through the inverse of the
  DPI transform and with an option mask that contains \<open>IgnoreScrollbars\<close> and
  \<open>IgnoreFrames\<close>, contains \<open>IgnoreMargin\<close> exactly when \<open>PrintMargin\<close> is not set,
  and contains \<open>IgnoreLegend\<close> exactly when \<open>PrintLegend\<close> is not set. What the engine
  answers for these arguments is the layout that is used: the rectangles given to
  \<open>printTitle\<close>, \<open>printLegend\<close>, \<open>printScale\<close> and \<open>printCanvas\<close> are those of
  \<open>L pa layoutRect layoutOptions\<close>.
\<close>

theorem print_activates_layout:
  assumes "print L (Some pt) plotRect options p = Inr (p', tr)" and "print_valid pt plotRect p"
    and "pa = (if has_flag options PrintFrameWithScales
               then fst (zeroMargins axisIds p Map.empty) else p)"
    and "layoutRect = mapRect (inverted (print_transform pt p)) plotRect"
    and "layoutOptions = layoutOptions_of options"
    and "lay = L pa layoutRect layoutOptions"
  shows "filter is_layout_activate tr = [LayoutActivate layoutRect layoutOptions]
         \<and> layout (fst (print_prepare L pt plotRect options p)) = lay
         \<and> List.map_filter call_rect tr =
             (if has_flag options PrintTitle \<and> \<not> titleIsEmpty p then [titleRect lay] else [])
             @ (if has_flag options PrintLegend
                   \<and> (case plot_legend p of None \<Rightarrow> False | Some lg \<Rightarrow> \<not> leg_isEmpty lg)
                then [legendRect lay] else [])
             @ map (scaleRect lay) [a \<leftarrow> axisIds. axisWidget p a \<noteq> None]
             @ [mapRect (print_transform pt p) (canvasRect lay)]
         \<and> has_flag layoutOptions IgnoreScrollbars
         \<and> has_flag layoutOptions IgnoreFrames
         \<and> (has_flag layoutOptions IgnoreMargin \<longleftrightarrow> \<not> has_flag options PrintMargin)
         \<and> (has_flag layoutOptions IgnoreLegend \<longleftrightarrow> \<not> has_flag options PrintLegend)"
proof -
  obtain pb tbl where prep: "print_prepare L pt plotRect options p = (pb, tbl)"
    by (cases "print_prepare L pt plotRect options p")
  have pbeq: "pb = fst (print_prepare L pt plotRect options p)"
    using prep by simp
  have lay: "layout pb = lay"
    using prep
    by (auto simp: print_prepare_def Let_def assms(3-6) split: prod.splits if_splits)
  have wid: "\<And>a. axisWidget pb a \<noteq> None \<longleftrightarrow> axisWidget p a \<noteq> None"
    using print_prepare_fields(8) [OF prep] by (auto split: if_splits)
  from print_skeleton [OF assms(1,2) pbeq] obtain maps where
    sk: "filter (\<lambda>e. \<not> is_drawing e) tr =
     [FilterApply (isScaling (print_transform pt p)),
      LayoutActivate (mapRect (inverted (print_transform pt p)) plotRect) (layoutOptions_of options),
      SetTransform (print_transform pt p)]
     @ (if has_flag options PrintTitle \<and> \<not> titleIsEmpty pb
        then [CallPrintTitle (titleRect (layout pb))] else [])
     @ (if has_flag options PrintLegend
           \<and> (case plot_legend pb of None \<Rightarrow> False | Some lg \<Rightarrow> \<not> leg_isEmpty lg)
        then [CallPrintLegend (legendRect (layout pb))] else [])
     @ map (\<lambda>a. CallPrintScale a (fst (borderDistHint (the (axisWidget pb a))))
                     (snd (borderDistHint (the (axisWidget pb a))))
                     (margin (the (axisWidget pb a))) (scaleRect (layout pb) a))
           [a \<leftarrow> axisIds. axisWidget pb a \<noteq> None]
     @ [ResetTransform,
        CallPrintCanvas (mapRect (print_transform pt p) (canvasRect (layout pb)))
          (rescaleMaps axisIds (print_transform pt p) maps),
        LayoutInvalidate, FilterReset]"
    by blast
  have act: "filter is_layout_activate tr = [LayoutActivate layoutRect layoutOptions]"
    by (subst filter_via_skeleton [of is_layout_activate, OF is_layout_activate_not_drawing])
       (simp_all add: sk filter_empty_conv assms(4,5))
  have flt: "[a \<leftarrow> axisIds. axisWidget pb a \<noteq> None] = [a \<leftarrow> axisIds. axisWidget p a \<noteq> None]"
    by (rule filter_cong [OF refl]) (use wid in blast)
  have "List.map_filter call_rect tr =
             (if has_flag options PrintTitle \<and> \<not> titleIsEmpty pb then [titleRect (layout pb)] else [])
             @ (if has_flag options PrintLegend
                   \<and> (case plot_legend pb of None \<Rightarrow> False | Some lg \<Rightarrow> \<not> leg_isEmpty lg)
                then [legendRect (layout pb)] else [])
             @ map (scaleRect (layout pb)) [a \<leftarrow> axisIds. axisWidget pb a \<noteq> None]
             @ [mapRect (print_transform pt p) (canvasRect (layout pb))]"
    by (subst map_filter_via_skeleton [of call_rect, OF call_rect_not_drawing])
       (simp_all add: sk List.map_filter_def comp_def filter_map)
  then have rects: "List.map_filter call_rect tr =
             (if has_flag options PrintTitle \<and> \<not> titleIsEmpty p then [titleRect lay] else [])
             @ (if has_flag options PrintLegend
                   \<and> (case plot_legend p of None \<Rightarrow> False | Some lg \<Rightarrow> \<not> leg_isEmpty lg)
                then [legendRect lay] else [])
             @ map (scaleRect lay) [a \<leftarrow> axisIds. axisWidget p a \<noteq> None]
             @ [mapRect (print_transform pt p) (canvasRect lay)]"
    by (simp only: flt lay print_prepare_fields(2,3) [OF prep])
  from act rects lay pbeq layoutOptions_of_flags [of options] show ?thesis
    by (simp add: assms(5))
qed

theorem print_activates_layout_witness:
  "print_valid ex_painter ex_rect ex_plot
   \<and> \<not> isl (print ex_engine_opts (Some ex_painter) ex_rect 0 ex_plot)
   \<and> \<not> isl (print ex_engine_opts (Some ex_painter) ex_rect 36 ex_plot)
   \<and> filter is_layout_activate (trace_of (print ex_engine_opts (Some ex_painter) ex_rect 0 ex_plot))
       = [LayoutActivate \<lparr>rx = 0, ry = 0, rw = 400, rh = 300\<rparr> 15]
   \<and> filter is_layout_activate (trace_of (print ex_engine_opts (Some ex_painter) ex_rect 36 ex_plot))
       = [LayoutActivate \<lparr>rx = 0, ry = 0, rw = 400, rh = 300\<rparr> 7]
   \<and> List.map_filter call_rect (trace_of (print ex_engine_opts (Some ex_painter) ex_rect 0 ex_plot))
       = [\<lparr>rx = 0, ry = 20, rw = 30, rh = 250\<rparr>, \<lparr>rx = 0, ry = 0, rw = 0, rh = 0\<rparr>,
          \<lparr>rx = 30, ry = 270, rw = 370, rh = 30\<rparr>, \<lparr>rx = 0, ry = 0, rw = 0, rh = 0\<rparr>,
          \<lparr>rx = 60, ry = 40, rw = 740, rh = 500\<rparr>]
   \<and> List.map_filter call_rect (trace_of (print ex_engine_opts (Some ex_painter) ex_rect 36 ex_plot))
       = [\<lparr>rx = 0, ry = 280, rw = 400, rh = 20\<rparr>,
          \<lparr>rx = 0, ry = 20, rw = 26, rh = 230\<rparr>, \<lparr>rx = 0, ry = 0, rw = 0, rh = 0\<rparr>,
          \<lparr>rx = 26, ry = 250, rw = 374, rh = 30\<rparr>, \<lparr>rx = 0, ry = 0, rw = 0, rh = 0\<rparr>,
          \<lparr>rx = 52, ry = 40, rw = 748, rh = 460\<rparr>]
   \<and> \<not> has_flag 0 PrintMargin \<and> has_flag 15 IgnoreMargin \<and> has_flag 15 IgnoreLegend
   \<and> has_flag 36 PrintLegend \<and> \<not> has_flag 7 IgnoreLegend"
proof -
  have z: "zeroMargins axisIds ex_plot Map.empty =
      (ex_plot\<lparr>axisWidget := (\<lambda>a. if a \<in> set axisIds
                                  then map_option (margin_update (\<lambda>_. 0)) (axisWidget ex_plot a)
                                  else axisWidget ex_plot a)\<rparr>,
       (\<lambda>a. if a \<in> set axisIds
            then (case axisWidget ex_plot a of None \<Rightarrow> None | Some sw \<Rightarrow> Some (margin sw))
            else None))"
    by (rule zeroMargins_closed [OF axisIds_distinct])
  from print_activates_layout [OF result_collapse [OF ex_opts_returns_0] ex_valid refl refl refl refl]
    print_activates_layout [OF result_collapse [OF ex_opts_returns_36] ex_valid refl refl refl refl]
    ex_valid ex_opts_returns_0 ex_opts_returns_36
  show ?thesis
    by (simp add: z) (simp add: ex_eval)
qed

end
